(* ===== verification/Prelude.thy ===== *)
theory Prelude
  imports Complex_Main "HOL-Library.Word"
begin

text \<open>
  Shared vocabulary of the development: the machine types of the Rust sources
  (\<open>u8\<close>, \<open>u16\<close>, \<open>u64\<close>, \<open>usize\<close> as words of their width), the RGB triple that
  every colour of the program is, the collections of facts the component theories
  share, and generic lemmas on words and lists that the component proofs use.
\<close>

type_synonym u8 = "8 word"
type_synonym u16 = "16 word"
type_synonym u64 = "64 word"
type_synonym usize = "64 word"

text \<open>An RGB colour as the sources write it: \<open>(u8, u8, u8)\<close>.\<close>

type_synonym rgb = "u8 \<times> u8 \<times> u8"

text \<open>\<open>std::time::Instant\<close>: a point of a monotonic clock, in nanoseconds.\<close>

type_synonym instant = nat

text \<open>
  \<open>f64_exact\<close> collects the facts that a value is a binary64 number (rounding
  leaves it unchanged); \<open>render_simps\<close> collects the unfolding rules of the
  renderers' per-cell computations.
\<close>

text \<open>Rust's \<open>saturating_add\<close> and \<open>saturating_sub\<close> on unsigned words.\<close>

definition saturating_add :: "'a::len word \<Rightarrow> 'a word \<Rightarrow> 'a word" where
  "saturating_add a b = (if 2 ^ LENGTH('a) \<le> unat a + unat b then - 1 else a + b)"

definition saturating_sub :: "'a::len word \<Rightarrow> 'a word \<Rightarrow> 'a word" where
  "saturating_sub a b = (if a < b then 0 else a - b)"

named_theorems f64_exact "values that binary64 rounding leaves unchanged"
named_theorems render_simps "unfolding rules of the per-cell renderer computations"

subsection \<open>Words\<close>

text \<open>
  A word read as a number is written \<open>real (unat w)\<close> throughout, as the sources'
  \<open>w as f64\<close>; the library's rewrite of it into \<open>unsigned w\<close> is switched off.
\<close>

declare of_nat_unat [simp del]

lemma word_of_nat_unat [simp]: "(of_nat (unat w) :: 'a::len word) = w"
  by (metis of_nat_unat ucast_id)

lemma unat_u8_le: "unat (c :: u8) \<le> 255"
proof -
  have "unat c < 2 ^ LENGTH(8)" by (rule unsigned_less)
  then show ?thesis by simp
qed

lemma unat_u16_less: "unat (h :: u16) < 65536"
proof -
  have "unat h < 2 ^ LENGTH(16)" by (rule unsigned_less)
  then show ?thesis by simp
qed

lemma real_unat_u16_less: "real (unat (h :: u16)) < 65536"
  using unat_u16_less [of h] by simp

lemma unat_of_nat_u8 [simp]: "n < 256 \<Longrightarrow> unat (of_nat n :: u8) = n"
  by (simp add: unat_of_nat)

lemma u8_le_iff_unat: "(a :: u8) \<le> b \<longleftrightarrow> unat a \<le> unat b"
  by (simp add: word_le_nat_alt)

lemma unat_saturating_add:
  "unat (saturating_add a b :: 'a::len word) = min (unat a + unat b) (2 ^ LENGTH('a) - 1)"
proof (cases "2 ^ LENGTH('a) \<le> unat a + unat b")
  case True
  then show ?thesis by (simp add: saturating_add_def unsigned_minus_1_eq_mask mask_eq_exp_minus_1)
next
  case False
  then show ?thesis by (simp add: saturating_add_def unat_plus_if' not_le)
qed

lemma unat_saturating_sub: "unat (saturating_sub a b) = unat a - unat b"
  by (simp add: saturating_sub_def unat_sub word_less_nat_alt not_less word_le_nat_alt)

lemma unat_ucast_u8: "8 \<le> LENGTH('a) \<Longrightarrow> unat (ucast (v :: u8) :: 'a::len word) = unat v"
proof -
  assume l: "8 \<le> LENGTH('a)"
  have "unat v < 2 ^ 8" using unat_u8_le [of v] by simp
  also have "(2::nat) ^ 8 \<le> 2 ^ LENGTH('a)" using l by (rule power_increasing) simp
  finally show ?thesis by (simp add: unsigned_ucast_eq take_bit_nat_eq_self_iff)
qed

end
