(* ===== verification/F64.thy ===== *)
theory F64
  imports Prelude
begin

text \<open>
  Rust's \<open>f64\<close> as the sources use it. A binary64 value is a real number that
  \<open>f64_round\<close> leaves unchanged; every arithmetic operation computes the exact
  real result and rounds it to the nearest binary64 value, ties to even, with 53
  significant bits and the exponent bounded below by -1022 (gradual underflow).
  Overflow to infinity and NaN are not modelled: every quantity of the program is a
  small screen coordinate, a colour channel or a tempo, far inside the finite range.
  The section gives the rounding function, the operations and casts built on it
  (\<open>+ - * /\<close>, \<open>sqrt\<close>, \<open>sin\<close>, \<open>%\<close>, \<open>round\<close>, \<open>as u8\<close>,
  \<open>as usize\<close>), and the facts the component proofs use: rounding is monotone,
  odd, idempotent and exact on integers and dyadic values of 53 bits.
\<close>

subsection \<open>Rounding to binary64\<close>

text \<open>\<open>ilog2 n\<close> is the position of the highest set bit of \<open>n\<close>.\<close>

fun ilog2 :: "nat \<Rightarrow> nat" where
  "ilog2 n = (if n < 2 then 0 else Suc (ilog2 (n div 2)))"

definition f64_expo :: "real \<Rightarrow> int" where
  "f64_expo x = max (-1022)
     (if 1 \<le> x then int (ilog2 (nat \<lfloor>x\<rfloor>)) else - int (ilog2 (nat \<lceil>1 / x\<rceil> - 1)) - 1)"

definition f64_ulp :: "real \<Rightarrow> real" where
  "f64_ulp x = 2 powi (f64_expo x - 52)"

definition round_even :: "real \<Rightarrow> int" where
  "round_even q = (let n = \<lfloor>q\<rfloor>; f = q - of_int n in
     if f < 1/2 then n else if 1/2 < f then n + 1 else if even n then n else n + 1)"

definition f64_round :: "real \<Rightarrow> real" where
  "f64_round x = sgn x * (of_int (round_even (\<bar>x\<bar> / f64_ulp \<bar>x\<bar>)) * f64_ulp \<bar>x\<bar>)"

text \<open>The exponent before the subnormal clamp.\<close>

definition f64_expo0 :: "real \<Rightarrow> int" where
  "f64_expo0 x = (if 1 \<le> x then int (ilog2 (nat \<lfloor>x\<rfloor>)) else - int (ilog2 (nat \<lceil>1 / x\<rceil> - 1)) - 1)"


subsection \<open>Operations and casts\<close>

text \<open>
  Each operation of Rust's \<open>f64\<close> computes exactly and rounds once; \<open>%\<close>
  (\<open>fmod\<close>) and \<open>round\<close> are exact in IEEE 754 and need no rounding. A literal
  \<open>0.7\<close> of the source is \<open>f64_round (7/10)\<close>, the binary64 value nearest to it.
\<close>

definition fadd :: "real \<Rightarrow> real \<Rightarrow> real" where
  "fadd x y = f64_round (x + y)"

definition fsub :: "real \<Rightarrow> real \<Rightarrow> real" where
  "fsub x y = f64_round (x - y)"

definition fmul :: "real \<Rightarrow> real \<Rightarrow> real" where
  "fmul x y = f64_round (x * y)"

definition fdiv :: "real \<Rightarrow> real \<Rightarrow> real" where
  "fdiv x y = f64_round (x / y)"

definition fsqrt :: "real \<Rightarrow> real" where
  "fsqrt x = f64_round (sqrt x)"

definition fsin :: "real \<Rightarrow> real" where
  "fsin x = f64_round (sin x)"

text \<open>Truncation towards zero, the integer part that Rust's casts and \<open>%\<close> keep.\<close>

definition trunc_f64 :: "real \<Rightarrow> int" where
  "trunc_f64 v = (if 0 \<le> v then \<lfloor>v\<rfloor> else - \<lfloor>- v\<rfloor>)"

text \<open>\<open>x % y\<close> on \<open>f64\<close>: the remainder of truncating division, sign of \<open>x\<close>.\<close>

definition f64_rem :: "real \<Rightarrow> real \<Rightarrow> real" where
  "f64_rem x y = x - y * of_int (trunc_f64 (x / y))"

text \<open>\<open>f64::round\<close>: to the nearest integer, halves away from zero.\<close>

definition round_away :: "real \<Rightarrow> real" where
  "round_away v = of_int (if 0 \<le> v then \<lfloor>v + 1/2\<rfloor> else - \<lfloor>- v + 1/2\<rfloor>)"

text \<open>
  \<open>v as u8\<close>, \<open>v as usize\<close>: Rust's float-to-integer casts truncate towards zero
  and saturate at the bounds of the target type.
\<close>

definition f64_to_word :: "real \<Rightarrow> 'a::len word" where
  "f64_to_word v = word_of_int (max 0 (min (2 ^ LENGTH('a) - 1) (trunc_f64 v)))"

text \<open>\<open>c as f64\<close> for an unsigned integer: exact.\<close>

definition f64_of_word :: "'a::len word \<Rightarrow> real" where
  "f64_of_word w = real (unat w)"

text \<open>
  \<open>(c as f64 * k) as u8\<close>: a colour channel scaled by a float factor, the
  expression every colour computation of the sources is built from.
\<close>

definition u8_scale :: "u8 \<Rightarrow> real \<Rightarrow> u8" where
  "u8_scale c k = f64_to_word (fmul (f64_of_word c) k)"

text \<open>The spacing of binary64 values below the normal range, 2^-1074.\<close>

definition f64_tiny :: real where
  "f64_tiny = 2 powi (-1074)"

subsection \<open>Facts about rounding\<close>

declare ilog2.simps [simp del]

lemma ilog2_bounds: "0 < n \<Longrightarrow> 2 ^ ilog2 n \<le> n \<and> n < 2 ^ Suc (ilog2 n)"
proof (induction n rule: ilog2.induct)
  case (1 n)
  show ?case
  proof (cases "n < 2")
    case True
    with "1.prems" show ?thesis by (simp add: ilog2.simps)
  next
    case False
    with "1.IH" have "2 ^ ilog2 (n div 2) \<le> n div 2 \<and> n div 2 < 2 ^ Suc (ilog2 (n div 2))"
      by simp
    with False show ?thesis by (simp add: ilog2.simps [of n]) linarith
  qed
qed

lemma ilog2_mono: "m \<le> n \<Longrightarrow> ilog2 m \<le> ilog2 n"
proof (induction n arbitrary: m rule: ilog2.induct)
  case (1 n)
  show ?case
  proof (cases "m < 2")
    case True
    then show ?thesis by (simp add: ilog2.simps [of m])
  next
    case False
    with "1.prems" have "ilog2 (m div 2) \<le> ilog2 (n div 2)"
      by (intro "1.IH") (auto intro: div_le_mono)
    with False "1.prems" show ?thesis by (simp add: ilog2.simps [of m] ilog2.simps [of n])
  qed
qed

lemma round_even_of_int [simp]: "round_even (of_int n) = n"
  by (simp add: round_even_def)

lemma round_even_bounds: "q - 1/2 \<le> of_int (round_even q) \<and> of_int (round_even q) \<le> q + 1/2"
proof -
  have "of_int \<lfloor>q\<rfloor> \<le> q" "q < of_int \<lfloor>q\<rfloor> + 1"
    by (simp_all add: of_int_floor_le)
  then show ?thesis unfolding round_even_def Let_def by (auto; linarith)
qed

lemma round_even_mono:
  assumes "q \<le> q'" shows "round_even q \<le> round_even q'"
proof -
  have fl: "\<lfloor>q\<rfloor> \<le> \<lfloor>q'\<rfloor>" using assms by (rule floor_mono)
  show ?thesis
  proof (cases "\<lfloor>q\<rfloor> = \<lfloor>q'\<rfloor>")
    case True
    then show ?thesis using assms unfolding round_even_def Let_def by auto
  next
    case False
    with fl have "\<lfloor>q\<rfloor> + 1 \<le> \<lfloor>q'\<rfloor>" by simp
    then show ?thesis unfolding round_even_def Let_def by auto
  qed
qed

lemma round_even_0 [simp]: "round_even 0 = 0"
  by (simp add: round_even_def)

lemma round_even_numeral [simp]: "round_even (numeral n) = numeral n"
  by (simp add: round_even_def)

lemma round_even_nonneg: "0 \<le> q \<Longrightarrow> 0 \<le> round_even q"
  using round_even_mono [of 0 q] by simp

lemma f64_ulp_pos: "0 < f64_ulp x"
  by (simp add: f64_ulp_def)

lemma f64_expo_ge: "-1022 \<le> f64_expo x"
  by (simp add: f64_expo_def)

lemma f64_expo_mono:
  assumes "0 < x" "x \<le> y" shows "f64_expo x \<le> f64_expo y"
proof -
  have "(if 1 \<le> x then int (ilog2 (nat \<lfloor>x\<rfloor>)) else - int (ilog2 (nat \<lceil>1 / x\<rceil> - 1)) - 1)
     \<le> (if 1 \<le> y then int (ilog2 (nat \<lfloor>y\<rfloor>)) else - int (ilog2 (nat \<lceil>1 / y\<rceil> - 1)) - 1)"
  proof (cases "1 \<le> x")
    case True
    with assms have "nat \<lfloor>x\<rfloor> \<le> nat \<lfloor>y\<rfloor>" by (simp add: floor_mono nat_mono)
    with True assms show ?thesis by (simp add: ilog2_mono)
  next
    case False
    show ?thesis
    proof (cases "1 \<le> y")
      case True
      with False show ?thesis by simp
    next
      case y: False
      from assms have "1 / y \<le> 1 / x" by (simp add: frac_le)
      then have "\<lceil>1 / y\<rceil> \<le> \<lceil>1 / x\<rceil>" by (rule ceiling_mono)
      then have "nat \<lceil>1 / y\<rceil> - 1 \<le> nat \<lceil>1 / x\<rceil> - 1" by (intro diff_le_mono nat_mono)
      then have "ilog2 (nat \<lceil>1 / y\<rceil> - 1) \<le> ilog2 (nat \<lceil>1 / x\<rceil> - 1)" by (rule ilog2_mono)
      with False y show ?thesis by simp
    qed
  qed
  then show ?thesis unfolding f64_expo_def by linarith
qed

lemma f64_expo_max: "f64_expo x = max (-1022) (f64_expo0 x)"
  by (simp add: f64_expo_def f64_expo0_def)

lemma f64_expo0_bounds:
  assumes "0 < x"
  shows "2 powi f64_expo0 x \<le> x \<and> x < 2 powi (f64_expo0 x + 1)"
proof (cases "1 \<le> x")
  case True
  define n where "n = nat \<lfloor>x\<rfloor>"
  from True have n: "0 < n" "real n \<le> x" "x < real n + 1"
    by (auto simp: n_def)
  then have "2 ^ ilog2 n \<le> n" "n + 1 \<le> 2 ^ Suc (ilog2 n)"
    using ilog2_bounds [of n] by auto
  then have "(2::real) ^ ilog2 n \<le> real n" "real n + 1 \<le> 2 ^ Suc (ilog2 n)"
    by (metis of_nat_le_iff of_nat_numeral of_nat_power,
        metis of_nat_Suc of_nat_le_iff of_nat_numeral of_nat_power add.commute plus_1_eq_Suc)
  moreover have "int (ilog2 n) + 1 = int (Suc (ilog2 n))" by simp
  ultimately show ?thesis using True n
    unfolding f64_expo0_def n_def [symmetric] by (simp only: if_True power_int_of_nat) linarith
next
  case False
  define m where "m = nat \<lceil>1 / x\<rceil> - 1"
  define j where "j = ilog2 m"
  from False assms have gt: "1 < 1 / x" by simp
  then have "1 < \<lceil>1 / x\<rceil>" by (simp add: less_ceiling_iff)
  then have "m = nat (\<lceil>1 / x\<rceil> - 1)" "0 \<le> \<lceil>1 / x\<rceil> - 1" "0 < m"
    using assms by (auto simp: m_def nat_diff_distrib)
  then have mr: "real m = of_int \<lceil>1 / x\<rceil> - 1" "0 < m"
    by simp_all
  then have c: "real m < 1 / x" "1 / x \<le> real m + 1" "0 < m"
    using ceiling_correct [of "1 / x"] by auto
  then have "2 ^ j \<le> m" "m + 1 \<le> 2 ^ Suc j"
    using ilog2_bounds [of m] by (auto simp: j_def)
  then have p: "(2::real) ^ j \<le> real m" "real m + 1 \<le> 2 * 2 ^ j"
    by (metis of_nat_le_iff of_nat_numeral of_nat_power,
        metis of_nat_Suc of_nat_le_iff of_nat_numeral of_nat_power add.commute plus_1_eq_Suc power_Suc)
  have e: "f64_expo0 x = - int j - 1" using False by (simp add: f64_expo0_def m_def j_def)
  have "1 / x \<le> 2 * 2 ^ j" using c(2) p(2) by linarith
  then have lo: "1 / (2 * 2 ^ j) \<le> x"
    using assms by (simp add: divide_le_eq le_divide_eq mult.commute)
  have "2 ^ j < 1 / x" using c(1) p(1) by linarith
  then have hi: "x < 1 / 2 ^ j"
    using assms by (simp add: less_divide_eq mult.commute)
  have "2 powi (- int j - 1) = 1 / (2 * (2::real) ^ j)"
    by (simp add: power_int_diff power_int_minus_divide)
  moreover have "2 powi (- int j - 1 + 1) = 1 / (2::real) ^ j"
    by (simp add: power_int_minus_divide)
  ultimately show ?thesis using lo hi e by simp
qed

lemma f64_expo_upper: "0 < x \<Longrightarrow> x < 2 powi (f64_expo x + 1)"
proof -
  assume "0 < x"
  then have "x < 2 powi (f64_expo0 x + 1)" using f64_expo0_bounds by blast
  also have "\<dots> \<le> 2 powi (f64_expo x + 1)"
    by (rule power_int_increasing) (auto simp: f64_expo_max)
  finally show ?thesis .
qed

lemma f64_expo_lower: "0 < x \<Longrightarrow> -1022 < f64_expo x \<Longrightarrow> 2 powi f64_expo x \<le> x"
  using f64_expo0_bounds [of x] by (simp add: f64_expo_max)

lemma f64_round_pos: "0 < x \<Longrightarrow> f64_round x = of_int (round_even (x / f64_ulp x)) * f64_ulp x"
  by (simp add: f64_round_def)

lemma f64_round_uminus: "f64_round (- x) = - f64_round x"
  by (simp add: f64_round_def sgn_minus)

lemma f64_round_zero [simp]: "f64_round 0 = 0"
  by (simp add: f64_round_def)

lemma f64_ulp_times: "2 ^ k * f64_ulp x = 2 powi (f64_expo x - 52 + int k)"
  by (simp add: f64_ulp_def power_int_add)

lemma f64_ulp_scale: "2 ^ 53 * f64_ulp x = 2 powi (f64_expo x + 1)"
  using f64_ulp_times [of 53 x] by (simp add: add.commute)

lemma f64_quot_less: "0 < x \<Longrightarrow> x / f64_ulp x < 2 ^ 53"
  using f64_expo_upper [of x] f64_ulp_scale [of x] f64_ulp_pos [of x]
  by (simp add: divide_less_eq)

lemma f64_round_pos_upper: "0 < x \<Longrightarrow> f64_round x \<le> 2 powi (f64_expo x + 1)"
proof -
  assume x: "0 < x"
  have "round_even (x / f64_ulp x) \<le> round_even (of_int (2 ^ 53))"
    using f64_quot_less [OF x] by (intro round_even_mono) simp
  then have "of_int (round_even (x / f64_ulp x)) \<le> (2::real) ^ 53"
    by (simp only: round_even_of_int) (metis of_int_le_iff of_int_numeral of_int_power)
  then have "of_int (round_even (x / f64_ulp x)) * f64_ulp x \<le> 2 ^ 53 * f64_ulp x"
    using f64_ulp_pos [of x] by (simp add: mult_right_mono)
  then show ?thesis using x f64_ulp_scale [of x] by (simp add: f64_round_pos)
qed

lemma f64_round_pos_lower:
  assumes x: "0 < x" and e: "-1022 < f64_expo x"
  shows "2 powi f64_expo x \<le> f64_round x"
proof -
  have "2 ^ 52 * f64_ulp x = 2 powi f64_expo x"
    using f64_ulp_times [of 52 x] by simp
  with f64_expo_lower [OF x e] f64_ulp_pos [of x]
  have "of_int (2 ^ 52) \<le> x / f64_ulp x" by (simp add: le_divide_eq)
  then have "round_even (of_int (2 ^ 52)) \<le> round_even (x / f64_ulp x)"
    by (rule round_even_mono)
  then have "(2::real) ^ 52 \<le> of_int (round_even (x / f64_ulp x))"
    by (simp only: round_even_of_int) (metis of_int_le_iff of_int_numeral of_int_power)
  then have "2 ^ 52 * f64_ulp x \<le> of_int (round_even (x / f64_ulp x)) * f64_ulp x"
    using f64_ulp_pos [of x] by (simp add: mult_right_mono)
  moreover have "2 ^ 52 * f64_ulp x = 2 powi f64_expo x"
    using f64_ulp_times [of 52 x] by simp
  ultimately show ?thesis using x by (simp add: f64_round_pos)
qed

lemma f64_round_mono_pos:
  assumes x: "0 < x" and xy: "x \<le> y"
  shows "f64_round x \<le> f64_round y"
proof (cases "f64_expo x = f64_expo y")
  case True
  then have u: "f64_ulp x = f64_ulp y" by (simp add: f64_ulp_def)
  have "x / f64_ulp x \<le> y / f64_ulp x"
    using xy f64_ulp_pos [of x] by (simp add: divide_right_mono)
  then have "round_even (x / f64_ulp x) \<le> round_even (y / f64_ulp x)"
    by (rule round_even_mono)
  then show ?thesis using x xy u f64_ulp_pos [of x]
    by (simp add: f64_round_pos mult_right_mono)
next
  case False
  with f64_expo_mono [OF x xy] have lt: "f64_expo x + 1 \<le> f64_expo y" by simp
  moreover have "-1022 < f64_expo y" using lt f64_expo_ge [of x] by simp
  ultimately have "f64_round x \<le> 2 powi (f64_expo x + 1)"
      "2 powi (f64_expo x + 1) \<le> (2::real) powi f64_expo y"
      "2 powi f64_expo y \<le> f64_round y"
    using x xy by (auto intro: f64_round_pos_upper f64_round_pos_lower power_int_increasing)
  then show ?thesis by linarith
qed

lemma f64_round_nonneg: "0 \<le> x \<Longrightarrow> 0 \<le> f64_round x"
  using f64_ulp_pos [of x] round_even_nonneg [of "x / f64_ulp x"]
  by (cases "x = 0") (simp_all add: f64_round_pos)

lemma f64_round_mono: "x \<le> y \<Longrightarrow> f64_round x \<le> f64_round y"
proof (cases "0 < x")
  case True
  assume "x \<le> y" with True show ?thesis by (rule f64_round_mono_pos)
next
  case False
  assume xy: "x \<le> y"
  have fx: "f64_round x \<le> 0"
    using f64_round_nonneg [of "- x"] False by (simp add: f64_round_uminus)
  show ?thesis
  proof (cases "0 \<le> y")
    case True
    with fx show ?thesis using f64_round_nonneg [of y] by linarith
  next
    case y: False
    then have "f64_round (- y) \<le> f64_round (- x)"
      using xy by (intro f64_round_mono_pos) auto
    then show ?thesis by (simp add: f64_round_uminus)
  qed
qed

lemma f64_round_exact_pos:
  assumes n: "0 < n" "n < 2 ^ 53" and k: "-1074 \<le> k"
  shows "f64_round (of_int n * 2 powi k) = of_int n * 2 powi k"
proof -
  define x where "x = (of_int n * 2 powi k :: real)"
  have x: "0 < x" using n by (simp add: x_def)
  have ek: "f64_expo x - 52 \<le> k"
  proof (cases "f64_expo x = -1022")
    case True
    with k show ?thesis by simp
  next
    case False
    then have "-1022 < f64_expo x" using f64_expo_ge [of x] by simp
    with x have "2 powi f64_expo x \<le> x" by (rule f64_expo_lower)
    also have "x < 2 ^ 53 * 2 powi k"
      using n by (simp add: x_def)
    also have "\<dots> = 2 powi (k + 53)" by (simp add: power_int_add)
    finally have "f64_expo x < k + 53"
      using power_int_increasing [of "k + 53" "f64_expo x" "2::real"] by force
    then show ?thesis by simp
  qed
  define d where "d = nat (k - (f64_expo x - 52))"
  define u where "u = f64_ulp x"
  have "2 powi k = (2::real) ^ d * u"
    using ek f64_ulp_times [of d x] by (simp add: d_def u_def)
  then have "x = of_int (n * 2 ^ d) * u" by (simp add: x_def)
  moreover have "0 < u" by (simp add: u_def f64_ulp_pos)
  ultimately have "x / u = of_int (n * 2 ^ d)" by simp
  then have q: "x / f64_ulp x = of_int (n * 2 ^ d)" by (simp add: u_def)
  have "f64_round x = of_int (round_even (x / f64_ulp x)) * f64_ulp x"
    by (rule f64_round_pos [OF x])
  also have "\<dots> = of_int (n * 2 ^ d) * f64_ulp x"
    by (simp only: q round_even_of_int)
  also have "\<dots> = x"
    using q f64_ulp_pos [of x] by (simp add: field_simps)
  finally show ?thesis by (simp add: x_def)
qed

lemma f64_round_exact:
  assumes "\<bar>n\<bar> < 2 ^ 53" "-1074 \<le> k"
  shows "f64_round (of_int n * 2 powi k) = of_int n * 2 powi k"
proof -
  consider "0 < n" | "n = 0" | "0 < - n" by linarith
  then show ?thesis
  proof cases
    case 1
    with assms show ?thesis by (intro f64_round_exact_pos) auto
  next
    case 2
    then show ?thesis by simp
  next
    case 3
    with assms have "f64_round (of_int (- n) * 2 powi k) = of_int (- n) * 2 powi k"
      by (intro f64_round_exact_pos) auto
    then show ?thesis using f64_round_uminus [of "of_int n * 2 powi k"] by simp
  qed
qed

lemma f64_round_int: "\<bar>n\<bar> < 2 ^ 53 \<Longrightarrow> f64_round (of_int n) = of_int n"
  using f64_round_exact [of n 0] by simp

lemma f64_round_nat: "n < 2 ^ 53 \<Longrightarrow> f64_round (real n) = real n"
  using f64_round_int [of "int n"] by simp

lemma small_nat_less_2p53: "(n::nat) \<le> 65536 \<Longrightarrow> n < 2 ^ 53"
proof -
  assume "n \<le> 65536"
  moreover have "(65536::nat) < 2 ^ 53" by simp
  ultimately show ?thesis by (rule le_less_trans)
qed

lemma f64_round_half_int: "\<bar>n\<bar> < 2 ^ 53 \<Longrightarrow> f64_round (of_int n / 2) = of_int n / 2"
  using f64_round_exact [of n "-1"] by (simp add: power_int_minus_divide)

lemma f64_round_quarter_int: "\<bar>n\<bar> < 2 ^ 53 \<Longrightarrow> f64_round (of_int n / 4) = of_int n / 4"
  using f64_round_exact [of n "-2"] by (simp add: power_int_minus_divide)

lemma f64_round_quot_le: "0 < x \<Longrightarrow> round_even (x / f64_ulp x) \<le> 2 ^ 53"
proof -
  assume x: "0 < x"
  have "round_even (x / f64_ulp x) \<le> round_even (of_int (2 ^ 53))"
    using f64_quot_less [OF x] by (intro round_even_mono) simp
  then show ?thesis by simp
qed

lemma f64_round_idem_pos: "0 < x \<Longrightarrow> f64_round (f64_round x) = f64_round x"
proof -
  assume x: "0 < x"
  define r where "r = round_even (x / f64_ulp x)"
  have r: "0 \<le> r" "r \<le> 2 ^ 53"
    using f64_round_quot_le [OF x] round_even_nonneg [of "x / f64_ulp x"] x f64_ulp_pos [of x]
    by (simp_all add: r_def)
  have e: "-1074 \<le> f64_expo x - 52" using f64_expo_ge [of x] by simp
  have fx: "f64_round x = of_int r * 2 powi (f64_expo x - 52)"
    using x by (simp add: f64_round_pos r_def f64_ulp_def)
  show ?thesis
  proof (cases "r = 2 ^ 53")
    case True
    have "f64_round x = of_int 1 * 2 powi (f64_expo x + 1)"
      using fx True f64_ulp_scale [of x] by (simp add: f64_ulp_def)
    then show ?thesis using f64_round_exact [of 1 "f64_expo x + 1"] f64_expo_ge [of x] by simp
  next
    case False
    with r have "\<bar>r\<bar> < 2 ^ 53" by simp
    then show ?thesis using fx e f64_round_exact [of r "f64_expo x - 52"] by simp
  qed
qed

lemma f64_round_idem [simp]: "f64_round (f64_round x) = f64_round x"
proof -
  consider "0 < x" | "x = 0" | "0 < - x" by linarith
  then show ?thesis
  proof cases
    case 1
    then show ?thesis by (rule f64_round_idem_pos)
  next
    case 2
    then show ?thesis by simp
  next
    case 3
    then have "f64_round (f64_round (- x)) = f64_round (- x)" by (rule f64_round_idem_pos)
    then show ?thesis by (simp add: f64_round_uminus)
  qed
qed

declare f64_round_nat [f64_exact] f64_round_half_int [f64_exact]
  f64_round_quarter_int [f64_exact] f64_round_idem [f64_exact]

subsection \<open>Facts about the operations\<close>

lemma trunc_f64_nonneg [simp]: "0 \<le> v \<Longrightarrow> trunc_f64 v = \<lfloor>v\<rfloor>"
  by (simp add: trunc_f64_def)

lemma f64_rem_bounds_nonneg:
  assumes "0 \<le> x" "0 < y"
  shows "0 \<le> f64_rem x y \<and> f64_rem x y < y"
proof -
  have "of_int \<lfloor>x / y\<rfloor> \<le> x / y" "x / y < of_int \<lfloor>x / y\<rfloor> + 1"
    by (simp_all add: of_int_floor_le)
  then have "of_int \<lfloor>x / y\<rfloor> * y \<le> x" "x < (of_int \<lfloor>x / y\<rfloor> + 1) * y"
    by (simp_all only: pos_le_divide_eq [OF assms(2)] pos_divide_less_eq [OF assms(2)])
  then show ?thesis using assms by (simp add: f64_rem_def algebra_simps)
qed

lemma f64_rem_bounds_neg:
  assumes "x < 0" "0 < y"
  shows "- y < f64_rem x y \<and> f64_rem x y \<le> 0"
proof -
  have "0 \<le> - x" using assms by simp
  from f64_rem_bounds_nonneg [OF this assms(2)]
  have "0 \<le> f64_rem (- x) y \<and> f64_rem (- x) y < y" .
  moreover have "f64_rem x y = - f64_rem (- x) y"
    using assms by (simp add: f64_rem_def trunc_f64_def divide_less_0_iff)
  ultimately show ?thesis by linarith
qed

lemma round_away_le: "round_away v \<le> v + 1/2"
proof -
  have fl: "1/2 - v < of_int \<lfloor>1/2 - v\<rfloor> + 1"
    by (rule real_of_int_floor_add_one_gt)
  show ?thesis
  proof (cases "0 \<le> v")
    case True
    then show ?thesis by (simp add: round_away_def)
  next
    case False
    then have "round_away v = - of_int \<lfloor>1/2 - v\<rfloor>" by (simp add: round_away_def)
    with fl show ?thesis by linarith
  qed
qed

lemma f64_round_one [f64_exact]: "f64_round 1 = 1"
  using f64_round_nat [of 1] by simp

lemma f64_round_numeral [f64_exact]: "numeral n < (2::nat) ^ 53 \<Longrightarrow> f64_round (numeral n) = numeral n"
  using f64_round_nat [of "numeral n"] by simp

lemma f64_round_le_one: "x \<le> 1 \<Longrightarrow> f64_round x \<le> 1"
  using f64_round_mono [of x 1] by (simp add: f64_round_one)

lemma unat_f64_to_word:
  "unat (f64_to_word v :: 'a::len word) = nat (max 0 (min (2 ^ LENGTH('a) - 1) (trunc_f64 v)))"
proof -
  have "0 \<le> max 0 (min (2 ^ LENGTH('a) - 1) (trunc_f64 v))"
    "max 0 (min (2 ^ LENGTH('a) - 1) (trunc_f64 v)) < 2 ^ LENGTH('a)"
    by simp_all
  then show ?thesis
    by (simp only: f64_to_word_def unat_eq_nat_uint uint_word_of_int_eq take_bit_int_eq_self)
qed

lemma trunc_f64_mono: "v \<le> w \<Longrightarrow> trunc_f64 v \<le> trunc_f64 w"
proof -
  assume vw: "v \<le> w"
  consider "0 \<le> v" | "v < 0" "0 \<le> w" | "w < 0" by linarith
  then show ?thesis
  proof cases
    case 1
    with vw show ?thesis by (simp add: floor_mono)
  next
    case 2
    then have "0 \<le> \<lfloor>- v\<rfloor>" "0 \<le> \<lfloor>w\<rfloor>" by simp_all
    moreover have "trunc_f64 v = - \<lfloor>- v\<rfloor>" "trunc_f64 w = \<lfloor>w\<rfloor>"
      using 2 by (simp_all add: trunc_f64_def)
    ultimately show ?thesis by linarith
  next
    case 3
    with vw have "\<lfloor>- w\<rfloor> \<le> \<lfloor>- v\<rfloor>" by (simp add: floor_mono)
    with 3 vw show ?thesis by (simp add: trunc_f64_def)
  qed
qed

lemma f64_to_word_mono: "v \<le> w \<Longrightarrow> (f64_to_word v :: 'a::len word) \<le> f64_to_word w"
proof -
  assume "v \<le> w"
  then have "trunc_f64 v \<le> trunc_f64 w" by (rule trunc_f64_mono)
  then show ?thesis by (simp add: word_le_nat_alt unat_f64_to_word nat_mono)
qed

lemma f64_to_word_of_nat: "n < 2 ^ LENGTH('a) \<Longrightarrow> (f64_to_word (real n) :: 'a::len word) = of_nat n"
proof -
  assume "n < 2 ^ LENGTH('a)"
  then have "int n < int (2 ^ LENGTH('a))" by (simp only: of_nat_less_iff)
  then have "int n \<le> 2 ^ LENGTH('a) - 1" by simp
  then show ?thesis by (simp add: f64_to_word_def trunc_f64_def word_of_int_nat)
qed

lemma f64_to_word_of_word: "f64_to_word (f64_of_word c) = (c :: 'a::len word)"
proof -
  have "unat c < 2 ^ LENGTH('a)" by (rule unsigned_less)
  then have "(f64_to_word (real (unat c)) :: 'a word) = of_nat (unat c)"
    by (rule f64_to_word_of_nat)
  then show ?thesis by (simp add: f64_of_word_def)
qed

lemma f64_of_word_nonneg: "0 \<le> f64_of_word c"
  unfolding f64_of_word_def by (rule of_nat_0_le_iff)

lemma u8_scale_mono: "k \<le> k' \<Longrightarrow> u8_scale c k \<le> u8_scale c k'"
proof -
  assume "k \<le> k'"
  then have "f64_of_word c * k \<le> f64_of_word c * k'"
    using f64_of_word_nonneg [of c] by (rule mult_left_mono)
  then show ?thesis unfolding u8_scale_def fmul_def
    by (intro f64_to_word_mono f64_round_mono)
qed

lemma u8_scale_one [simp]: "u8_scale c 1 = c"
proof -
  have "unat c < 2 ^ 53" using unat_u8_le [of c] by simp
  then have "f64_round (f64_of_word c) = f64_of_word c"
    unfolding f64_of_word_def by (rule f64_round_nat)
  then show ?thesis by (simp add: u8_scale_def fmul_def f64_to_word_of_word)
qed

lemma fmul_zero_left [simp]: "fmul 0 y = 0"
  by (simp add: fmul_def)

lemma fsub_self [simp]: "fsub x x = 0"
  by (simp add: fsub_def)

lemma fadd_zero_zero [simp]: "fadd 0 0 = 0"
  by (simp add: fadd_def)

lemma fsqrt_zero [simp]: "fsqrt 0 = 0"
  by (simp add: fsqrt_def)

lemma u8_scale_zero [simp]: "u8_scale 0 k = 0"
  by (simp add: u8_scale_def f64_of_word_def f64_to_word_def trunc_f64_def)

lemma u8_scale_saturates:
  assumes "255 \<le> f64_of_word c * k"
  shows "u8_scale c k = 255"
proof -
  have "f64_round 255 \<le> fmul (f64_of_word c) k"
    unfolding fmul_def using assms by (rule f64_round_mono)
  then have "255 \<le> fmul (f64_of_word c) k" by (simp add: f64_round_numeral)
  then have "255 \<le> trunc_f64 (fmul (f64_of_word c) k)"
    by (simp add: trunc_f64_def le_floor_iff)
  then have "unat (u8_scale c k) = 255"
    by (simp add: u8_scale_def unat_f64_to_word)
  then show ?thesis using word_of_nat_unat [of "u8_scale c k"] by simp
qed

lemma u8_scale_le: "k \<le> 1 \<Longrightarrow> u8_scale c k \<le> c"
  using u8_scale_mono [of k 1 c] by simp

subsection \<open>The literals of the sources\<close>

text \<open>
  The binary64 values of the decimal literals the sources use. Only 0.5 and 1.5 of
  them are exact; the others lie slightly above or below the decimal number.
\<close>

lemma f64_lit_0_85: "f64_round (85/100) = 7656119366529843 / 2 ^ 53"
  by (simp add: f64_round_def f64_ulp_def f64_expo_def round_even_def Let_def ilog2.simps)

lemma f64_lit_0_7: "f64_round (7/10) = 3152519739159347 / 2 ^ 52"
  by (simp add: f64_round_def f64_ulp_def f64_expo_def round_even_def Let_def ilog2.simps)

lemma f64_lit_0_8: "f64_round (8/10) = 3602879701896397 / 2 ^ 52"
  by (simp add: f64_round_def f64_ulp_def f64_expo_def round_even_def Let_def ilog2.simps)

lemma f64_lit_0_2: "f64_round (2/10) = 3602879701896397 / 2 ^ 54"
  by (simp add: f64_round_def f64_ulp_def f64_expo_def round_even_def Let_def ilog2.simps)

lemma f64_lit_0_05: "f64_round (5/100) = 3602879701896397 / 2 ^ 56"
  by (simp add: f64_round_def f64_ulp_def f64_expo_def round_even_def Let_def ilog2.simps)

lemma f64_lit_0_5: "f64_round (1/2) = 1/2"
  using f64_round_half_int [of 1] by simp

lemma f64_lit_1_5: "f64_round (3/2) = 3/2"
  using f64_round_half_int [of 3] by simp

lemmas f64_literals = f64_lit_0_85 f64_lit_0_7 f64_lit_0_8 f64_lit_0_2 f64_lit_0_05
  f64_lit_0_5 f64_lit_1_5

text \<open>Evaluating the rounding of a closed term: the rules \<open>simp\<close> needs.\<close>

lemmas f64_eval = u8_scale_def f64_to_word_def f64_of_word_def trunc_f64_def fadd_def fsub_def fmul_def fdiv_def f64_round_def f64_ulp_def f64_expo_def round_even_def Let_def ilog2.simps

subsection \<open>Rounding error\<close>

text \<open>
  Rounding moves a value by at most half a unit in the last place, so by a relative
  error of at most 2^-53 plus half the subnormal spacing.
\<close>

lemma f64_tiny_pos: "0 < f64_tiny"
  by (simp add: f64_tiny_def)

lemma f64_tiny_small: "f64_tiny \<le> inverse (2 ^ 64)"
proof -
  have "(2::real) powi (-1074) \<le> 2 powi (- int 64)"
    by (rule power_int_increasing) simp_all
  also have "\<dots> = inverse (2 ^ 64)"
    by (simp only: power_int_minus power_int_of_nat)
  finally show ?thesis by (simp only: f64_tiny_def)
qed

lemma f64_ulp_le: "0 < x \<Longrightarrow> f64_ulp x \<le> x / 2 ^ 52 + f64_tiny"
proof (cases "f64_expo x = -1022")
  case True
  then have "f64_ulp x = f64_tiny" by (simp add: f64_ulp_def f64_tiny_def)
  moreover assume "0 < x"
  ultimately show ?thesis by simp
next
  case False
  assume x: "0 < x"
  with False f64_expo_ge [of x] have "-1022 < f64_expo x" by linarith
  with x have le: "2 powi f64_expo x \<le> x" by (rule f64_expo_lower)
  have "f64_ulp x = 2 powi f64_expo x / 2 ^ 52"
    by (simp add: f64_ulp_def power_int_diff)
  also have "\<dots> \<le> x / 2 ^ 52" using le by (simp add: divide_right_mono)
  finally show ?thesis using f64_tiny_pos by simp
qed

lemma f64_round_err_pos: "0 < x \<Longrightarrow> \<bar>f64_round x - x\<bar> \<le> f64_ulp x / 2"
proof -
  assume x: "0 < x"
  define u where "u = f64_ulp x"
  have u: "0 < u" by (simp add: u_def f64_ulp_pos)
  have "x = (x / u) * u" using u by simp
  then have "f64_round x - x = (of_int (round_even (x / u)) - x / u) * u"
    using x by (simp add: f64_round_pos u_def algebra_simps)
  moreover have "\<bar>of_int (round_even (x / u)) - x / u\<bar> \<le> 1 / 2"
    using round_even_bounds [of "x / u"] by linarith
  ultimately show ?thesis using u
    by (simp add: abs_mult u_def mult_right_mono)
qed

lemma f64_round_upper: "0 \<le> x \<Longrightarrow> f64_round x \<le> x + x / 2 ^ 53 + f64_tiny"
proof (cases "x = 0")
  case False
  assume "0 \<le> x"
  with False have x: "0 < x" by simp
  have "f64_round x \<le> x + f64_ulp x / 2"
    using f64_round_err_pos [OF x] by (simp only: abs_le_iff) linarith
  also have "\<dots> \<le> x + (x / 2 ^ 52 + f64_tiny) / 2"
    using f64_ulp_le [OF x] by simp
  also have "\<dots> \<le> x + x / 2 ^ 53 + f64_tiny"
    using f64_tiny_pos by (simp add: field_simps)
  finally show ?thesis .
qed (simp add: f64_tiny_pos less_imp_le)

lemma f64_round_le_factor:
  "0 \<le> x \<Longrightarrow> x \<le> y \<Longrightarrow> f64_round x \<le> y * (1 + 1 / 2 ^ 53) + f64_tiny"
  using f64_round_upper [of x] by (simp add: algebra_simps)

lemma f64_to_word_le_nat:
  assumes "0 \<le> v" "v < real n + 1"
  shows "unat (f64_to_word v :: 'a::len word) \<le> n"
proof -
  have "\<lfloor>v\<rfloor> \<le> int n" using assms(2) by linarith
  then show ?thesis using assms(1) by (simp add: unat_f64_to_word)
qed

lemma f64_round_lower: "0 \<le> x \<Longrightarrow> x - x / 2 ^ 53 - f64_tiny \<le> f64_round x"
proof (cases "x = 0")
  case False
  assume "0 \<le> x"
  with False have x: "0 < x" by simp
  have "x - (x / 2 ^ 52 + f64_tiny) / 2 \<le> x - f64_ulp x / 2"
    using f64_ulp_le [OF x] by simp
  also have "\<dots> \<le> f64_round x"
    using f64_round_err_pos [OF x] by (simp only: abs_le_iff) linarith
  finally show ?thesis using f64_tiny_pos by (simp add: field_simps)
qed (simp add: f64_tiny_pos less_imp_le)

lemma f64_to_word_ge_nat:
  assumes "real n \<le> v" "n < 2 ^ LENGTH('a)"
  shows "n \<le> unat (f64_to_word v :: 'a::len word)"
proof -
  have v: "0 \<le> v" using assms(1) by (metis of_nat_0_le_iff order_trans)
  have "int n \<le> \<lfloor>v\<rfloor>" using assms(1) by (simp add: le_floor_iff)
  moreover have "int n < 2 ^ LENGTH('a)"
    using assms(2) by (metis of_nat_less_iff of_nat_numeral of_nat_power)
  then have "int n \<le> 2 ^ LENGTH('a) - 1" by linarith
  ultimately have "int n \<le> max 0 (min (2 ^ LENGTH('a) - 1) (trunc_f64 v))" using v by simp
  then have "nat (int n) \<le> nat (max 0 (min (2 ^ LENGTH('a) - 1) (trunc_f64 v)))" by (rule nat_mono)
  then show ?thesis by (simp only: unat_f64_to_word nat_int)
qed

lemma nat_div_real_bounds:
  "0 < b \<Longrightarrow> real (m div b) \<le> real m / real b \<and> real m / real b \<le> real (m div b) + (real b - 1) / real b"
proof -
  assume b: "0 < b"
  have m: "m = m div b * b + m mod b" by simp
  have "real m = real (m div b) * real b + real (m mod b)"
    by (subst m) (simp only: of_nat_add of_nat_mult)
  then have eq: "real m / real b = real (m div b) + real (m mod b) / real b"
    using b by (simp add: field_simps)
  have "m mod b + 1 \<le> b" using b by (simp add: Suc_le_eq)
  then have "real (m mod b) \<le> real b - 1" by linarith
  then have "real (m mod b) / real b \<le> (real b - 1) / real b"
    using b by (simp add: divide_right_mono)
  then show ?thesis using eq by simp
qed

text \<open>
  A channel scaled by a binary64 weight \<open>w\<close> slightly below a fraction \<open>a / b\<close> with
  \<open>b \<le> 20\<close>: the result is the exact truncation \<open>a * c div b\<close> or one less.
\<close>

lemma u8_scale_near:
  assumes w0: "0 \<le> w" and wq: "w \<le> real a / real b" and qw: "real a / real b - w \<le> 1 / 2 ^ 40"
    and ab: "a \<le> b" and b: "0 < b" "b \<le> 20"
  shows "a * unat c div b - 1 \<le> unat (u8_scale c w) \<and> unat (u8_scale c w) \<le> a * unat c div b"
proof -
  define C where "C = real (unat c)"
  define q where "q = real a / real b"
  define n where "n = a * unat c div b"
  define x where "x = C * w"
  have C0: "0 \<le> C" and C255: "C \<le> 255" using unat_u8_le [of c] by (simp_all add: C_def)
  have q0: "0 \<le> q" and q1: "q \<le> 1" using ab b by (simp_all add: q_def)
  have nq: "real n \<le> C * q" "C * q \<le> real n + 19 / 20"
  proof -
    have d: "real (a * unat c) / real b = C * q" by (simp add: C_def q_def)
    have "(real b - 1) / real b \<le> 19 / 20"
      using b by (simp add: field_simps)
    then show "real n \<le> C * q" "C * q \<le> real n + 19 / 20"
      using nat_div_real_bounds [OF b(1), of "a * unat c"] by (simp_all only: d n_def) linarith+
  qed
  have x0: "0 \<le> x" using C0 w0 by (simp add: x_def)
  have xq: "x \<le> C * q" unfolding x_def using C0 wq by (intro mult_left_mono) (simp_all add: q_def)
  have "C * q \<le> C" using C0 q1 by (simp add: mult_left_le)
  then have x255: "x \<le> 255" using xq C255 by linarith
  have qw': "q - w \<le> 1 / 2 ^ 40" "0 \<le> q - w" using qw wq by (simp_all only: q_def)
  have "C * (q - w) \<le> 255 * (1 / 2 ^ 40)"
    by (rule mult_mono [OF C255 qw'(1) _ qw'(2)]) simp
  then have qx: "C * q - x \<le> 255 / 2 ^ 40" by (simp add: x_def algebra_simps)
  have s1: "x / 2 ^ 53 \<le> 255 / 2 ^ 53" using x255 by (simp add: divide_right_mono)
  have s2: "(255::real) / 2 ^ 53 \<le> 1 / 100" "(255::real) / 2 ^ 40 \<le> 1 / 100" by simp_all
  have s3: "f64_tiny \<le> 1 / 100" using f64_tiny_small by simp
  have up: "f64_round x < real n + 1"
    using f64_round_upper [OF x0] xq nq(2) s1 s2 s3 by linarith
  have lo: "real n - 1 \<le> f64_round x"
    using f64_round_lower [OF x0] qx nq(1) s1 s2 s3 by linarith
  have u: "u8_scale c w = f64_to_word (f64_round x)"
    by (simp add: u8_scale_def fmul_def f64_of_word_def x_def C_def)
  have "unat (u8_scale c w) \<le> n"
    unfolding u using f64_round_nonneg [OF x0] up by (intro f64_to_word_le_nat) simp_all
  moreover have "n - 1 \<le> unat (u8_scale c w)"
  proof (cases n)
    case (Suc k)
    have "real n \<le> 255" using nq(1) \<open>C * q \<le> C\<close> C255 by linarith
    then have "n < 2 ^ LENGTH(8)" by simp
    moreover have "real (n - 1) \<le> f64_round x" using lo Suc by simp
    ultimately show ?thesis unfolding u by (intro f64_to_word_ge_nat) simp_all
  qed simp
  ultimately show ?thesis by (simp add: n_def)
qed

end
