(* ===== verification/Scheme.thy ===== *)
theory Scheme
  imports F64
begin

text \<open>
  The colour scheme resolver of \<open>src/spotify_player/src/ui/visualizations.rs\<close>
  (\<open>ColorScheme\<close>, \<open>apply_intensity\<close>, \<open>get_color_for_scheme\<close>) and its copy in the
  test binary \<open>src/waveform_test/src/main.rs\<close>, which has six schemes and no album
  colour. A scheme and a tier level (0 brightest to 3 dimmest, every other level
  treated as 3) give a base colour; the intensity, an \<open>f64\<close>, scales each channel
  and the cast back to \<open>u8\<close> truncates and saturates. The lemmas show that a colour
  never exceeds its tier's base colour when the intensity is at most 1, that
  brightness is monotone in the intensity, that the album tiers reproduce the album
  colour at level 0 and full intensity, that \<open>Custom\<close> without an album colour is
  \<open>Cyan\<close>, and that the test binary's tables agree with the library's.
\<close>

subsection \<open>Data\<close>

text \<open>
  \<open>ratatui::style::Color\<close>, restricted to the two constructors the renderers use:
  the terminal's \<open>Black\<close> for blank cells and a 24-bit \<open>Rgb\<close> colour.
\<close>

datatype color = Black | Rgb u8 u8 u8

datatype color_scheme = Cyan | Warm | Purple | Green | Sunset | Ocean | Custom

text \<open>The test binary's own \<open>ColorScheme\<close> enum (no \<open>Custom\<close> variant).\<close>

datatype test_color_scheme = TCyan | TWarm | TPurple | TGreen | TSunset | TOcean

subsection \<open>Operations\<close>

text \<open>
  \<open>apply_intensity\<close>: each channel times the intensity, cast to \<open>u8\<close>. Every arm of
  both resolvers ends in this very expression,
  \<open>Color::Rgb((base.0 as f64 * intensity) as u8, \<dots>)\<close>, written out inline.
\<close>

definition apply_intensity :: "rgb \<Rightarrow> real \<Rightarrow> color" where
  "apply_intensity c intensity =
     (case c of (r, g, b) \<Rightarrow> Rgb (u8_scale r intensity) (u8_scale g intensity) (u8_scale b intensity))"

text \<open>
  The built-in tier tables of \<open>get_color_for_scheme\<close>: the \<open>let base = match level\<close>
  of each arm (\<open>_\<close> covers every level from 3 up). \<open>Custom\<close> has no table.
\<close>

fun scheme_tier :: "color_scheme \<Rightarrow> u8 \<Rightarrow> rgb" where
  "scheme_tier Cyan level =
     (if level = 0 then (0, 255, 255) else if level = 1 then (0, 200, 255)
      else if level = 2 then (0, 150, 200) else (0, 100, 150))"
| "scheme_tier Warm level =
     (if level = 0 then (255, 100, 0) else if level = 1 then (255, 150, 50)
      else if level = 2 then (200, 100, 0) else (150, 70, 0))"
| "scheme_tier Purple level =
     (if level = 0 then (200, 50, 255) else if level = 1 then (180, 80, 230)
      else if level = 2 then (150, 50, 200) else (100, 30, 150))"
| "scheme_tier Green level =
     (if level = 0 then (50, 255, 150) else if level = 1 then (50, 220, 120)
      else if level = 2 then (30, 180, 100) else (20, 120, 70))"
| "scheme_tier Sunset level =
     (if level = 0 then (255, 100, 150) else if level = 1 then (255, 150, 100)
      else if level = 2 then (200, 100, 100) else (150, 70, 80))"
| "scheme_tier Ocean level =
     (if level = 0 then (0, 150, 255) else if level = 1 then (20, 120, 220)
      else if level = 2 then (10, 80, 180) else (5, 50, 120))"

text \<open>
  The album-colour tiers of the \<open>Custom\<close> arm: the album colour scaled by the
  \<open>f64\<close> literals 0.85, 0.7 and 0.5 and cast back to \<open>u8\<close>.
\<close>

definition custom_tier :: "rgb \<Rightarrow> u8 \<Rightarrow> rgb" where
  "custom_tier c level = (case c of (r, g, b) \<Rightarrow>
     if level = 0 then (r, g, b)
     else if level = 1 then
       (u8_scale r (f64_round (85/100)), u8_scale g (f64_round (85/100)), u8_scale b (f64_round (85/100)))
     else if level = 2 then
       (u8_scale r (f64_round (7/10)), u8_scale g (f64_round (7/10)), u8_scale b (f64_round (7/10)))
     else
       (u8_scale r (f64_round (1/2)), u8_scale g (f64_round (1/2)), u8_scale b (f64_round (1/2))))"

text \<open>
  \<open>get_color_for_scheme\<close>: \<open>Custom\<close> with an album colour scales the album tiers;
  \<open>Custom\<close> without one calls itself with \<open>Cyan\<close>; every other scheme scales its
  table entry.
\<close>

function get_color_for_scheme :: "color_scheme \<Rightarrow> real \<Rightarrow> u8 \<Rightarrow> rgb option \<Rightarrow> color" where
  "get_color_for_scheme Custom intensity level album_color =
     (case album_color of
        Some c \<Rightarrow> apply_intensity (custom_tier c level) intensity
      | None \<Rightarrow> get_color_for_scheme Cyan intensity level None)"
| "scheme \<noteq> Custom \<Longrightarrow> get_color_for_scheme scheme intensity level album_color =
     apply_intensity (scheme_tier scheme level) intensity"
  by (auto, metis)
termination
  by (relation "measure (\<lambda>(s, _, _, _). if s = Custom then 1 else 0)") auto

text \<open>The test binary's \<open>get_color_for_scheme\<close>, with its own tables.\<close>

fun test_get_color_for_scheme :: "test_color_scheme \<Rightarrow> real \<Rightarrow> u8 \<Rightarrow> color" where
  "test_get_color_for_scheme TCyan intensity level = apply_intensity
     (if level = 0 then (0, 255, 255) else if level = 1 then (0, 200, 255)
      else if level = 2 then (0, 150, 200) else (0, 100, 150)) intensity"
| "test_get_color_for_scheme TWarm intensity level = apply_intensity
     (if level = 0 then (255, 100, 0) else if level = 1 then (255, 150, 50)
      else if level = 2 then (200, 100, 0) else (150, 70, 0)) intensity"
| "test_get_color_for_scheme TPurple intensity level = apply_intensity
     (if level = 0 then (200, 50, 255) else if level = 1 then (180, 80, 230)
      else if level = 2 then (150, 50, 200) else (100, 30, 150)) intensity"
| "test_get_color_for_scheme TGreen intensity level = apply_intensity
     (if level = 0 then (50, 255, 150) else if level = 1 then (50, 220, 120)
      else if level = 2 then (30, 180, 100) else (20, 120, 70)) intensity"
| "test_get_color_for_scheme TSunset intensity level = apply_intensity
     (if level = 0 then (255, 100, 150) else if level = 1 then (255, 150, 100)
      else if level = 2 then (200, 100, 100) else (150, 70, 80)) intensity"
| "test_get_color_for_scheme TOcean intensity level = apply_intensity
     (if level = 0 then (0, 150, 255) else if level = 1 then (20, 120, 220)
      else if level = 2 then (10, 80, 180) else (5, 50, 120)) intensity"

subsection \<open>Specification vocabulary\<close>

text \<open>The library scheme that each test-binary scheme stands for.\<close>

fun scheme_of_test :: "test_color_scheme \<Rightarrow> color_scheme" where
  "scheme_of_test TCyan = Cyan"
| "scheme_of_test TWarm = Warm"
| "scheme_of_test TPurple = Purple"
| "scheme_of_test TGreen = Green"
| "scheme_of_test TSunset = Sunset"
| "scheme_of_test TOcean = Ocean"

text \<open>Channel-wise order on colours: \<open>Black\<close> is comparable only with itself.\<close>

fun rgb_le :: "rgb \<Rightarrow> rgb \<Rightarrow> bool" where
  "rgb_le (r, g, b) (r', g', b') \<longleftrightarrow> r \<le> r' \<and> g \<le> g' \<and> b \<le> b'"

fun color_le :: "color \<Rightarrow> color \<Rightarrow> bool" where
  "color_le (Rgb r g b) (Rgb r' g' b') \<longleftrightarrow> r \<le> r' \<and> g \<le> g' \<and> b \<le> b'"
| "color_le Black Black \<longleftrightarrow> True"
| "color_le _ _ \<longleftrightarrow> False"

text \<open>The colour a tier's base RGB triple stands for.\<close>

fun rgb_color :: "rgb \<Rightarrow> color" where
  "rgb_color (r, g, b) = Rgb r g b"

text \<open>
  The album tiers as the specification states them, in exact arithmetic: the factors
  1, 0.85, 0.7 and 0.5 as the fractions 1/1, 17/20, 7/10 and 1/2, and a channel
  scaled by its tier's factor and truncated.
\<close>

definition tier_fraction :: "u8 \<Rightarrow> nat \<times> nat" where
  "tier_fraction level =
     (if level = 0 then (1, 1) else if level = 1 then (17, 20) else if level = 2 then (7, 10) else (1, 2))"

definition exact_tier_channel :: "u8 \<Rightarrow> u8 \<Rightarrow> nat" where
  "exact_tier_channel level c = (case tier_fraction level of (a, b) \<Rightarrow> a * unat c div b)"

definition within_one_below :: "nat \<Rightarrow> nat \<Rightarrow> bool" where
  "within_one_below e x \<longleftrightarrow> e - 1 \<le> x \<and> x \<le> e"

subsection \<open>Lemmas\<close>

lemma get_color_for_scheme_builtin:
  "scheme \<noteq> Custom \<Longrightarrow> get_color_for_scheme scheme intensity level album_color =
     apply_intensity (scheme_tier scheme level) intensity"
  by simp

lemma apply_intensity_le: "intensity \<le> 1 \<Longrightarrow> color_le (apply_intensity c intensity) (rgb_color c)"
  by (cases c) (simp add: apply_intensity_def u8_scale_le)

lemma apply_intensity_mono:
  "intensity \<le> intensity' \<Longrightarrow> color_le (apply_intensity c intensity) (apply_intensity c intensity')"
  by (cases c) (simp add: apply_intensity_def u8_scale_mono)

lemma apply_intensity_one [simp]: "apply_intensity c 1 = rgb_color c"
  by (cases c) (simp add: apply_intensity_def)

lemma color_le_trans: "color_le a b \<Longrightarrow> color_le b c \<Longrightarrow> color_le a c"
  by (cases a; cases b; cases c) auto

lemma color_le_rgb: "rgb_le c d \<Longrightarrow> color_le (rgb_color c) (rgb_color d)"
  by (cases c; cases d) auto

lemma custom_tier_le: "rgb_le (custom_tier c level) c"
proof -
  have "f64_round (85/100) \<le> 1" "f64_round (7/10) \<le> 1" "f64_round (1/2) \<le> 1"
    by (simp_all add: f64_round_le_one)
  then show ?thesis by (cases c) (simp add: custom_tier_def u8_scale_le)
qed

lemma custom_tier_zero [simp]: "custom_tier c 0 = c"
  by (cases c) (simp add: custom_tier_def)

lemma custom_tier_two:
  "custom_tier (r, g, b) 2 =
     (u8_scale r (f64_round (7/10)), u8_scale g (f64_round (7/10)), u8_scale b (f64_round (7/10)))"
  by (simp add: custom_tier_def)

lemma u8_scale_tier_near:
  "within_one_below (17 * unat c div 20) (unat (u8_scale c (f64_round (85/100))))"
  "within_one_below (7 * unat c div 10) (unat (u8_scale c (f64_round (7/10))))"
  "within_one_below (1 * unat c div 2) (unat (u8_scale c (f64_round (1/2))))"
proof -
  have "0 \<le> f64_round (85/100) \<and> f64_round (85/100) \<le> real 17 / real 20 \<and>
      real 17 / real 20 - f64_round (85/100) \<le> 1 / 2 ^ 40"
    by (simp only: f64_lit_0_85) simp
  then show "within_one_below (17 * unat c div 20) (unat (u8_scale c (f64_round (85/100))))"
    using u8_scale_near [of "f64_round (85/100)" 17 20 c] by (simp add: within_one_below_def)
  have "0 \<le> f64_round (7/10) \<and> f64_round (7/10) \<le> real 7 / real 10 \<and>
      real 7 / real 10 - f64_round (7/10) \<le> 1 / 2 ^ 40"
    by (simp only: f64_lit_0_7) simp
  then show "within_one_below (7 * unat c div 10) (unat (u8_scale c (f64_round (7/10))))"
    using u8_scale_near [of "f64_round (7/10)" 7 10 c] by (simp add: within_one_below_def)
  have "0 \<le> f64_round (1/2) \<and> f64_round (1/2) \<le> real 1 / real 2 \<and>
      real 1 / real 2 - f64_round (1/2) \<le> 1 / 2 ^ 40"
    by (simp only: f64_lit_0_5) simp
  then show "within_one_below (1 * unat c div 2) (unat (u8_scale c (f64_round (1/2))))"
    using u8_scale_near [of "f64_round (1/2)" 1 2 c] by (simp add: within_one_below_def)
qed

lemma custom_tier_channels:
  "case custom_tier (r, g, b) level of (r', g', b') \<Rightarrow>
     within_one_below (exact_tier_channel level r) (unat r') \<and>
     within_one_below (exact_tier_channel level g) (unat g') \<and>
     within_one_below (exact_tier_channel level b) (unat b')"
  using u8_scale_tier_near [of r] u8_scale_tier_near [of g] u8_scale_tier_near [of b]
  by (simp add: custom_tier_def exact_tier_channel_def tier_fraction_def within_one_below_def)

text \<open>
  C1: for every built-in scheme, an intensity of at most 1 never makes a channel
  brighter than the tier's base colour.
\<close>

theorem get_color_for_scheme_le_tier:
  assumes "scheme \<noteq> Custom" "intensity \<le> 1"
  shows "color_le (get_color_for_scheme scheme intensity level album_color)
                  (rgb_color (scheme_tier scheme level))"
  using assms by (simp add: apply_intensity_le)

theorem get_color_for_scheme_le_tier_witness:
  "Warm \<noteq> Custom \<and> (1/2 :: real) \<le> 1 \<and>
   color_le (get_color_for_scheme Warm (1/2) 1 None) (rgb_color (scheme_tier Warm 1))"
  using get_color_for_scheme_le_tier [of Warm "1/2" 1 None] by simp

text \<open>
  C2: with an album colour, the \<open>Custom\<close> scheme never makes a channel brighter than
  the album colour, at any tier, for an intensity of at most 1.
\<close>

theorem get_color_for_scheme_custom_le_album:
  assumes "intensity \<le> 1"
  shows "color_le (get_color_for_scheme Custom intensity level (Some c)) (rgb_color c)"
  using apply_intensity_le [OF assms, of "custom_tier c level"] custom_tier_le [of c level]
  by (auto intro: color_le_trans color_le_rgb)

theorem get_color_for_scheme_custom_le_album_witness:
  "(3/4 :: real) \<le> 1 \<and> color_le (get_color_for_scheme Custom (3/4) 2 (Some (100, 50, 200))) (Rgb 100 50 200)"
  using get_color_for_scheme_custom_le_album [of "3/4" 2 "(100, 50, 200)"] by simp

text \<open>
  C3: the resolved colour is monotone in the intensity, channel by channel, for
  every scheme, tier and album colour.
\<close>

theorem get_color_for_scheme_mono:
  assumes "intensity \<le> intensity'"
  shows "color_le (get_color_for_scheme scheme intensity level album_color)
                  (get_color_for_scheme scheme intensity' level album_color)"
proof (cases "scheme = Custom")
  case True
  with assms show ?thesis by (cases album_color) (simp_all add: apply_intensity_mono)
next
  case False
  with assms show ?thesis by (simp add: apply_intensity_mono)
qed

theorem get_color_for_scheme_mono_witness:
  "(1/4 :: real) \<le> 1/2 \<and>
   color_le (get_color_for_scheme Ocean (1/4) 3 None) (get_color_for_scheme Ocean (1/2) 3 None)"
  using get_color_for_scheme_mono [of "1/4" "1/2" Ocean 3 None] by simp

text \<open>
  C4: at full intensity the \<open>Custom\<close> scheme's level 0 is exactly the album colour,
  and without an album colour \<open>Custom\<close> resolves as \<open>Cyan\<close> at every intensity and
  level.
\<close>

theorem get_color_for_scheme_custom:
  "get_color_for_scheme Custom 1 0 (Some c) = rgb_color c \<and>
   get_color_for_scheme Custom intensity level None = get_color_for_scheme Cyan intensity level None"
  by simp

text \<open>
  C5: the test binary's resolver agrees with the library's on each of its six
  schemes, whatever album colour the library is given.
\<close>

theorem test_get_color_for_scheme_eq:
  "test_get_color_for_scheme s intensity level = get_color_for_scheme (scheme_of_test s) intensity level album_color"
  by (cases s) simp_all

text \<open>
  C6: the \<open>Custom\<close> tiers are computed in \<open>f64\<close>, where 0.85 and 0.7 are slightly
  below their decimal values: every channel of every album tier is the exactly
  scaled and truncated channel the specification states, or one less, never more.
  The lower end is reached: for (90, 170, 180) at level 2 the exact values are
  (63, 119, 126) and the code gives (62, 118, 125).
\<close>

theorem custom_tier_truncation:
  "(case custom_tier (r, g, b) level of (r', g', b') \<Rightarrow>
      within_one_below (exact_tier_channel level r) (unat r') \<and>
      within_one_below (exact_tier_channel level g) (unat g') \<and>
      within_one_below (exact_tier_channel level b) (unat b')) \<and>
   custom_tier (90, 170, 180) 2 = (62, 118, 125) \<and>
   (exact_tier_channel 2 90, exact_tier_channel 2 170, exact_tier_channel 2 180) = (63, 119, 126)"
proof -
  have "custom_tier (90, 170, 180) 2 = (62, 118, 125)"
    by (simp only: custom_tier_two f64_lit_0_7) (simp add: f64_eval)
  moreover have "(exact_tier_channel 2 90, exact_tier_channel 2 170, exact_tier_channel 2 180) = (63, 119, 126)"
    by (simp add: exact_tier_channel_def tier_fraction_def)
  ultimately show ?thesis using custom_tier_channels by simp
qed

end
