(* ===== verification/Tui.thy ===== *)
theory Tui
  imports Scheme
begin

text \<open>
  The part of the terminal UI library (ratatui) that the renderers build on, as the
  sources use it: a rectangle of the screen, the styled one-character spans a
  renderer produces per cell, the paragraph widget that carries the rows (with an
  optional bordered and titled block) and the frame that collects the widgets drawn
  in one tick. The library's own layout and drawing are not modelled; a frame is the
  list of widgets handed to \<open>Frame::render_widget\<close>, in call order.
\<close>

text \<open>\<open>ratatui::layout::Rect\<close>: position and size in cells, all \<open>u16\<close>.\<close>

record rect =
  rect_x :: u16
  rect_y :: u16
  width :: u16
  height :: u16

text \<open>
  The glyphs the renderers draw: a blank, the full block U+2588 of the line
  renderer, and the ring glyphs U+25CF, U+25C9, U+25CB and U+00B7 of the radial one.
\<close>

datatype glyph = Space | FullBlock | BlackCircle | Fisheye | WhiteCircle | MiddleDot

text \<open>\<open>Span::styled(char.to_string(), Style::default().fg(color))\<close>: one cell.\<close>

record span =
  content :: glyph
  fg :: color

type_synonym line = "span list"

text \<open>\<open>Block::default().borders(Borders::ALL).title(t)\<close>.\<close>

record block =
  borders_all :: bool
  title :: string

text \<open>\<open>Paragraph::new(text)\<close>, optionally \<open>.block(b)\<close>.\<close>

record widget =
  lines :: "line list"
  para_block :: "block option"

type_synonym frame = "(widget \<times> rect) list"

definition render_widget :: "frame \<Rightarrow> widget \<Rightarrow> rect \<Rightarrow> frame" where
  "render_widget f w area = f @ [(w, area)]"

definition styled :: "glyph \<Rightarrow> color \<Rightarrow> span" where
  "styled c color = \<lparr>content = c, fg = color\<rparr>"

definition bordered :: "string \<Rightarrow> block" where
  "bordered t = \<lparr>borders_all = True, title = t\<rparr>"

lemma content_styled [simp]: "content (styled c color) = c"
  by (simp add: styled_def)

lemma fg_styled [simp]: "fg (styled c color) = color"
  by (simp add: styled_def)

end
