(* ===== verification/Wave.thy ===== *)
theory Wave
  imports Tui
begin

text \<open>
  The wave field renderers and the beat clock. The linear renderer is
  \<open>render_concentric_waves\<close> of \<open>src/spotify_player/src/ui/visualizations.rs\<close>: one
  lit cell per column on a slow sine wave, drawn in the album colour or bright cyan.
  The radial renderer is the per-cell computation of \<open>render_concentric_waves\<close> in
  \<open>src/waveform_test/src/main.rs\<close>: rings expanding from the centre of the area with
  the beat, each cell's intensity mapped to a glyph and a tier of the test binary's
  colour resolver. The beat clock is the phase computation at the start of that
  function. All arithmetic is binary64 (theory \<open>F64\<close>).
\<close>

subsection \<open>Linear wave\<close>

text \<open>The line colour: the album colour when there is one, bright cyan otherwise.\<close>

definition album_wave_color :: "rgb option \<Rightarrow> rgb" where
  "album_wave_color album_color = (case album_color of Some c \<Rightarrow> c | None \<Rightarrow> (0, 255, 255))"

text \<open>
  The wave height of column \<open>x\<close>:
  \<open>center_y + (x_pos * 0.2 + wave_phase).sin() * amplitude\<close> with
  \<open>wave_phase = beat_progress * 0.05\<close>, \<open>center_y = height / 2.0\<close> and
  \<open>amplitude = (height / 5.0).max(1.5)\<close>.
\<close>

definition wave_y :: "real \<Rightarrow> u16 \<Rightarrow> nat \<Rightarrow> real" where
  "wave_y beat_progress h x =
     (let wave_phase = fmul beat_progress (f64_round (5/100));
          center_y = fdiv (f64_of_word h) 2;
          amplitude = max (fdiv (f64_of_word h) 5) (f64_round (3/2))
      in fadd center_y (fmul (fsin (fadd (fmul (real x) (f64_round (2/10))) wave_phase)) amplitude))"

text \<open>\<open>wave_positions\<close>: \<open>wave_y.round() as usize\<close> for every column.\<close>

definition wave_positions :: "real \<Rightarrow> u16 \<Rightarrow> u16 \<Rightarrow> usize list" where
  "wave_positions beat_progress w h =
     map (\<lambda>x. f64_to_word (round_away (wave_y beat_progress h x))) [0..<unat w]"

text \<open>
  The rows: a cell is the full block in the wave colour where its row is the
  column's wave position, a blank in \<open>Black\<close> everywhere else.
\<close>

definition wave_text :: "usize list \<Rightarrow> rgb \<Rightarrow> u16 \<Rightarrow> u16 \<Rightarrow> line list" where
  "wave_text positions wave_color w h =
     map (\<lambda>y. map (\<lambda>x.
            if y = unat (positions ! x)
            then styled FullBlock (rgb_color wave_color)
            else styled Space Black) [0..<unat w]) [0..<unat h]"

definition linear_wave_text :: "rect \<Rightarrow> real \<Rightarrow> rgb option \<Rightarrow> line list" where
  "linear_wave_text area beat_progress album_color =
     wave_text (wave_positions beat_progress (width area) (height area))
       (album_wave_color album_color) (width area) (height area)"

text \<open>The renderer: the rows in a paragraph, bordered and titled on request.\<close>

definition render_concentric_waves :: "frame \<Rightarrow> rect \<Rightarrow> real \<Rightarrow> rgb option \<Rightarrow> bool \<Rightarrow> frame" where
  "render_concentric_waves f area beat_progress album_color show_border =
     (let txt = linear_wave_text area beat_progress album_color;
          widget = (if show_border
                    then \<lparr>lines = txt, para_block = Some (bordered ''Visualization'')\<rparr>
                    else \<lparr>lines = txt, para_block = None\<rparr>)
      in render_widget f widget area)"

subsection \<open>Beat clock\<close>

text \<open>\<open>(elapsed * bpm / 60.0) % 1.0\<close>.\<close>

definition beat_phase :: "real \<Rightarrow> real \<Rightarrow> real" where
  "beat_phase elapsed bpm = f64_rem (fdiv (fmul elapsed bpm) 60) 1"

subsection \<open>Radial wave\<close>

text \<open>
  The intensity of cell \<open>(x, y)\<close>: its distance from the centre, rows counted twice,
  minus the expanding offset \<open>beat_progress * 15.0\<close>, taken \<open>% 5.0\<close>; a phase below
  1 gives \<open>1.0 - wave_phase\<close>, any other 0.
\<close>

definition radial_intensity :: "u16 \<Rightarrow> u16 \<Rightarrow> real \<Rightarrow> nat \<Rightarrow> nat \<Rightarrow> real" where
  "radial_intensity w h beat_progress x y =
     (let center_x = fdiv (f64_of_word w) 2;
          center_y = fdiv (f64_of_word h) 2;
          wave_offset = fmul beat_progress 15;
          dx = fsub (real x) center_x;
          dy = fmul (fsub (real y) center_y) 2;
          dist = fsqrt (fadd (fmul dx dx) (fmul dy dy));
          wave_phase = f64_rem (fsub dist wave_offset) 5
      in if wave_phase < 1 then fsub 1 wave_phase else 0)"

text \<open>The band of an intensity: a glyph and the resolver's tier, or a blank.\<close>

definition radial_cell :: "test_color_scheme \<Rightarrow> real \<Rightarrow> span" where
  "radial_cell scheme intensity =
     (if f64_round (7/10) < intensity then styled BlackCircle (test_get_color_for_scheme scheme intensity 0)
      else if f64_round (1/2) < intensity then styled Fisheye (test_get_color_for_scheme scheme intensity 1)
      else if f64_round (3/10) < intensity then styled WhiteCircle (test_get_color_for_scheme scheme intensity 2)
      else if f64_round (15/100) < intensity then styled MiddleDot (test_get_color_for_scheme scheme intensity 3)
      else styled Space Black)"

definition radial_text :: "test_color_scheme \<Rightarrow> u16 \<Rightarrow> u16 \<Rightarrow> real \<Rightarrow> line list" where
  "radial_text scheme w h beat_progress =
     map (\<lambda>y. map (\<lambda>x. radial_cell scheme (radial_intensity w h beat_progress x y)) [0..<unat w])
       [0..<unat h]"

subsection \<open>Facts about the linear wave\<close>

lemma fsin_le_one: "fsin t \<le> 1"
  unfolding fsin_def by (rule f64_round_le_one) (rule sin_le_one)

lemma f64_round_max: "f64_round (max (f64_round a) (f64_round b)) = max (f64_round a) (f64_round b)"
  by (simp add: max_def)

lemma wave_y_bound:
  assumes h: "5 \<le> unat h"
  shows "wave_y bp h x + 1/2 < real (unat h)"
proof -
  define H where "H = real (unat h)"
  have Hs: "unat h < 2 ^ 16" using unat_u16_less [of h] by simp
  define amp where "amp = max (fdiv H 5) (f64_round (3/2))"
  define s where "s = fsin (fadd (fmul (real x) (f64_round (2/10))) (fmul bp (f64_round (5/100))))"
  have amp_exact: "f64_round amp = amp"
    unfolding amp_def fdiv_def by (rule f64_round_max)
  have amp_nonneg: "0 \<le> amp" by (simp add: amp_def f64_lit_1_5)
  have "s * amp \<le> 1 * amp"
    using fsin_le_one amp_nonneg unfolding s_def by (rule mult_right_mono)
  then have sa: "fmul s amp \<le> amp"
    unfolding fmul_def using f64_round_mono [of "s * amp" amp] amp_exact by simp
  have half: "fdiv H 2 = H / 2"
    using f64_round_half_int [of "int (unat h)"] Hs by (simp add: fdiv_def H_def)
  have "0 \<le> H" by (simp add: H_def)
  then have "H / 5 \<le> H / 4" by (simp add: frac_le)
  then have "fdiv H 5 \<le> f64_round (H / 4)"
    unfolding fdiv_def by (rule f64_round_mono)
  also have "f64_round (H / 4) = H / 4"
    using f64_round_quarter_int [of "int (unat h)"] Hs by (simp add: H_def)
  finally have amp_le: "amp \<le> max (H / 4) (3 / 2)"
    by (simp add: amp_def f64_lit_1_5)
  define B where "B = max (3 * H / 4) ((H + 3) / 2)"
  have B_exact: "f64_round B = B"
  proof -
    have "f64_round (of_int (3 * int (unat h)) / 4) = of_int (3 * int (unat h)) / 4"
      using Hs by (intro f64_round_quarter_int) simp
    moreover have "f64_round (of_int (int (unat h) + 3) / 2) = of_int (int (unat h) + 3) / 2"
      using Hs by (intro f64_round_half_int) simp
    ultimately show ?thesis by (simp add: B_def H_def max_def)
  qed
  have m: "fmul s amp \<le> max (H / 4) (3 / 2)" using sa amp_le by linarith
  have "H / 2 + fmul s amp \<le> B"
  proof (cases "H / 4 \<le> 3 / 2")
    case True
    with m have "fmul s amp \<le> 3 / 2" by (simp add: max_def)
    then show ?thesis by (simp add: B_def le_max_iff_disj)
  next
    case False
    with m have "fmul s amp \<le> H / 4" by (simp add: max_def)
    then show ?thesis by (simp add: B_def le_max_iff_disj)
  qed
  then have "wave_y bp h x \<le> B"
    using f64_round_mono [of "H / 2 + fmul s amp" B] B_exact
    by (simp add: wave_y_def Let_def fadd_def half s_def amp_def H_def [symmetric] f64_of_word_def)
  moreover have "B + 1/2 < H"
  proof -
    have "5 \<le> H" using h by (simp add: H_def)
    then show ?thesis unfolding B_def by (simp add: max_def field_simps)
  qed
  ultimately show ?thesis by (simp add: H_def)
qed

lemma f64_to_word_round_away_less:
  assumes "v + 1/2 < real n" "0 < n"
  shows "unat (f64_to_word (round_away v) :: 'a::len word) < n"
proof -
  obtain k where k: "round_away v = of_int k"
    unfolding round_away_def by blast
  with round_away_le [of v] assms(1) have "of_int k < real n" by linarith
  then have "k < int n" by linarith
  then have "min (2 ^ LENGTH('a) - 1) (trunc_f64 (round_away v)) < int n"
    using k by (simp add: trunc_f64_def)
  then show ?thesis using assms(2) by (simp add: unat_f64_to_word nat_less_iff)
qed

lemma f64_to_word_round_away_ge:
  assumes "real n \<le> v + 1/2" "0 < n" "n < 2 ^ LENGTH('a)"
  shows "n \<le> unat (f64_to_word (round_away v) :: 'a::len word)"
proof -
  have "1 \<le> real n" using assms(2) by simp
  then have v: "0 \<le> v" using assms(1) by linarith
  have "int n \<le> \<lfloor>v + 1/2\<rfloor>" using assms(1) by (simp add: le_floor_iff)
  then have "real n \<le> round_away v" using v by (simp add: round_away_def)
  then show ?thesis using assms(3) by (rule f64_to_word_ge_nat)
qed

lemma wave_position_less_iff:
  assumes "0 < unat h" "x < unat w"
  shows "unat (wave_positions bp w h ! x) < unat h \<longleftrightarrow> wave_y bp h x + 1/2 < real (unat h)"
proof
  assume "unat (wave_positions bp w h ! x) < unat h"
  moreover have "unat h < 2 ^ LENGTH(64)" using unat_u16_less [of h] by simp
  ultimately show "wave_y bp h x + 1/2 < real (unat h)"
    using assms f64_to_word_round_away_ge [of "unat h" "wave_y bp h x", where 'a = 64]
    by (force simp: wave_positions_def)
next
  assume "wave_y bp h x + 1/2 < real (unat h)"
  with assms show "unat (wave_positions bp w h ! x) < unat h"
    by (simp add: wave_positions_def f64_to_word_round_away_less)
qed

lemma wave_position_less:
  assumes "5 \<le> unat h" "x < unat w"
  shows "unat (wave_positions bp w h ! x) < unat h"
proof -
  have "0 < unat h" using assms(1) by simp
  with wave_y_bound [OF assms(1), of bp x] assms(2) show ?thesis
    by (simp add: wave_positions_def f64_to_word_round_away_less)
qed

lemma linear_wave_text_cell:
  assumes "y < unat (height area)" "x < unat (width area)"
  shows "linear_wave_text area bp album_color ! y ! x =
    (if y = unat (wave_positions bp (width area) (height area) ! x)
     then styled FullBlock (rgb_color (album_wave_color album_color))
     else styled Space Black)"
  using assms by (simp add: linear_wave_text_def wave_text_def)

lemma linear_wave_text_shape:
  "length (linear_wave_text area bp album_color) = unat (height area) \<and>
   (\<forall>row \<in> set (linear_wave_text area bp album_color). length row = unat (width area))"
  by (auto simp: linear_wave_text_def wave_text_def)

subsection \<open>Facts about the beat clock and the radial field\<close>

lemma fsub_mirror:
  fixes w :: u16
  assumes "x \<le> unat w"
  shows "fsub (real (unat w - x)) (fdiv (f64_of_word w) 2) = - fsub (real x) (fdiv (f64_of_word w) 2)"
proof -
  have "unat w < 2 ^ 16" using unat_u16_less [of w] by simp
  then have "fdiv (f64_of_word w) 2 = real (unat w) / 2"
    using f64_round_half_int [of "int (unat w)"] by (simp add: fdiv_def f64_of_word_def)
  moreover have "real (unat w - x) - real (unat w) / 2 = - (real x - real (unat w) / 2)"
    using assms by (simp add: of_nat_diff)
  ultimately show ?thesis by (simp only: fsub_def f64_round_uminus)
qed

lemma test_get_color_for_scheme_mono:
  "i \<le> i' \<Longrightarrow> color_le (test_get_color_for_scheme s i l) (test_get_color_for_scheme s i' l)"
  by (cases s) (simp_all add: apply_intensity_mono)

lemma radial_text_cell:
  assumes "y < unat h" "x < unat w"
  shows "radial_text scheme w h bp ! y ! x = radial_cell scheme (radial_intensity w h bp x y)"
  using assms by (simp add: radial_text_def)

lemma radial_intensity_mirror:
  fixes w :: u16
  assumes "x \<le> unat w"
  shows "radial_intensity w h bp (unat w - x) y = radial_intensity w h bp x y"
  using fsub_mirror [OF assms] by (simp add: radial_intensity_def Let_def fmul_def)


subsection \<open>Properties\<close>

text \<open>
  C7: on an area at least 5 rows high, the linear renderer lights exactly one cell
  in every column, and that cell lies inside the area.
\<close>

theorem linear_wave_one_lit_per_column:
  assumes "5 \<le> unat (height area)" "x < unat (width area)"
  shows "card {y. y < unat (height area) \<and>
                  content (linear_wave_text area bp album_color ! y ! x) = FullBlock} = 1"
proof -
  define p where "p = unat (wave_positions bp (width area) (height area) ! x)"
  have p: "p < unat (height area)"
    using wave_position_less [OF assms] by (simp add: p_def)
  have "{y. y < unat (height area) \<and>
            content (linear_wave_text area bp album_color ! y ! x) = FullBlock} = {p}"
    using p assms(2) by (auto simp: linear_wave_text_cell p_def split: if_splits)
  then show ?thesis by simp
qed

theorem linear_wave_one_lit_per_column_witness:
  "5 \<le> unat (height \<lparr>rect_x = 0, rect_y = 0, width = 10, height = 5\<rparr>) \<and>
   3 < unat (width \<lparr>rect_x = 0, rect_y = 0, width = 10, height = 5\<rparr>) \<and>
   card {y. y < unat (height \<lparr>rect_x = 0, rect_y = 0, width = 10, height = 5\<rparr>) \<and>
     content (linear_wave_text \<lparr>rect_x = 0, rect_y = 0, width = 10, height = 5\<rparr> (1/2) None ! y ! 3)
       = FullBlock} = 1"
  using linear_wave_one_lit_per_column [of "\<lparr>rect_x = 0, rect_y = 0, width = 10, height = 5\<rparr>" 3 "1/2" None]
  by simp

text \<open>
  C8: on every area at least one row high, a column has exactly one lit cell when
  its wave height \<open>wave_y\<close> lies below \<open>height - 1/2\<close>, and none otherwise: the
  rounded position is then off the grid. Below 5 rows this happens: on a 1 by 1
  area at beat progress 0 the height is 0.5, which \<open>round\<close> takes to row 1.
\<close>

theorem linear_wave_column_lit_iff:
  assumes "0 < unat (height area)" "x < unat (width area)"
  shows "card {y. y < unat (height area) \<and>
                  content (linear_wave_text area bp album_color ! y ! x) = FullBlock} =
         (if wave_y bp (height area) x + 1/2 < real (unat (height area)) then 1 else 0)"
proof -
  define p where "p = unat (wave_positions bp (width area) (height area) ! x)"
  have "{y. y < unat (height area) \<and>
            content (linear_wave_text area bp album_color ! y ! x) = FullBlock} =
        (if p < unat (height area) then {p} else {})"
    using assms(2) by (auto simp: linear_wave_text_cell p_def split: if_splits)
  then show ?thesis using wave_position_less_iff [OF assms] by (simp add: p_def)
qed

theorem linear_wave_column_lit_iff_witness:
  "0 < unat (height \<lparr>rect_x = 0, rect_y = 0, width = 1, height = 1\<rparr>) \<and>
   0 < unat (width \<lparr>rect_x = 0, rect_y = 0, width = 1, height = 1\<rparr>) \<and>
   card {y. y < unat (height \<lparr>rect_x = 0, rect_y = 0, width = 1, height = 1\<rparr>) \<and>
            content (linear_wave_text \<lparr>rect_x = 0, rect_y = 0, width = 1, height = 1\<rparr> 0 None ! y ! 0)
              = FullBlock} = 0"
proof -
  have y: "wave_y 0 1 0 = 1/2"
    using f64_round_half_int [of 1]
    by (simp add: wave_y_def Let_def fmul_def fadd_def fdiv_def fsin_def f64_of_word_def)
  show ?thesis
    using linear_wave_column_lit_iff [where area = "\<lparr>rect_x = 0, rect_y = 0, width = 1, height = 1\<rparr>"
        and x = 0 and bp = 0 and album_color = None]
    by (simp add: y)
qed

text \<open>
  C9: the beat clock's phase lies in [0, 1) for every non-negative elapsed time and
  tempo.
\<close>

theorem beat_phase_bounds:
  assumes "0 \<le> elapsed" "0 \<le> bpm"
  shows "0 \<le> beat_phase elapsed bpm \<and> beat_phase elapsed bpm < 1"
proof -
  have "0 \<le> fmul elapsed bpm" unfolding fmul_def using assms by (simp add: f64_round_nonneg)
  then have "0 \<le> fdiv (fmul elapsed bpm) 60" unfolding fdiv_def by (simp add: f64_round_nonneg)
  then show ?thesis unfolding beat_phase_def by (rule f64_rem_bounds_nonneg) simp
qed

theorem beat_phase_bounds_witness:
  "0 \<le> (7/2 :: real) \<and> 0 \<le> (120 :: real) \<and> 0 \<le> beat_phase (7/2) 120 \<and> beat_phase (7/2) 120 < 1"
  using beat_phase_bounds [of "7/2" 120] by simp

text \<open>
  C10: the radial field is mirror-symmetric about the vertical line through the
  area's centre: column \<open>x\<close> and column \<open>width - x\<close> hold the same cell, for every
  scheme, beat progress and row. Column 0 has no partner inside the area.
\<close>

theorem radial_text_mirror:
  assumes "1 \<le> x" "x < unat w" "y < unat h"
  shows "radial_text scheme w h bp ! y ! (unat w - x) = radial_text scheme w h bp ! y ! x"
proof -
  have "unat w - x < unat w" using assms by simp
  with assms show ?thesis
    by (simp add: radial_text_cell radial_intensity_mirror)
qed

theorem radial_text_mirror_witness:
  "1 \<le> (3::nat) \<and> 3 < unat (20 :: u16) \<and> 4 < unat (10 :: u16) \<and>
   radial_text TCyan 20 10 (1/2) ! 4 ! (unat (20 :: u16) - 3) = radial_text TCyan 20 10 (1/2) ! 4 ! 3"
  using radial_text_mirror [of 3 20 4 10 TCyan "1/2"] by simp

text \<open>
  C11: a cell's intensity lies in [0, 6]. It exceeds 1 wherever the distance is
  below the expanding offset, because \<open>%\<close> keeps the sign of a negative dividend.
\<close>

theorem radial_intensity_bounds:
  "0 \<le> radial_intensity w h bp x y \<and> radial_intensity w h bp x y \<le> 6"
proof -
  define d where "d = fsub (fsqrt (fadd (fmul (fsub (real x) (fdiv (f64_of_word w) 2))
                                            (fsub (real x) (fdiv (f64_of_word w) 2)))
                                      (fmul (fmul (fsub (real y) (fdiv (f64_of_word h) 2)) 2)
                                            (fmul (fsub (real y) (fdiv (f64_of_word h) 2)) 2))))
                        (fmul bp 15)"
  have r: "radial_intensity w h bp x y = (if f64_rem d 5 < 1 then fsub 1 (f64_rem d 5) else 0)"
    by (simp add: radial_intensity_def Let_def d_def)
  have "- 5 < f64_rem d 5"
    using f64_rem_bounds_nonneg [of d 5] f64_rem_bounds_neg [of d 5] by (cases "0 \<le> d") auto
  then have "1 - f64_rem d 5 \<le> 6" by simp
  then have le6: "fsub 1 (f64_rem d 5) \<le> 6"
    unfolding fsub_def using f64_round_mono [of "1 - f64_rem d 5" 6] by (simp add: f64_round_numeral)
  have "f64_rem d 5 < 1 \<Longrightarrow> 0 \<le> fsub 1 (f64_rem d 5)"
    unfolding fsub_def by (simp add: f64_round_nonneg)
  with le6 show ?thesis by (simp add: r)
qed

text \<open>
  C12: wherever a cell's intensity exceeds 1 (C11: it does inside the expanding
  offset, up to 6), the cell is drawn as a full ring in a colour at least as bright,
  in every channel, as its tier's base colour at intensity 1; channels that do not
  saturate come out brighter than the tier the specification allows. At beat
  progress 0.5 the centre cell of a 2 by 2 area has intensity 3.5 and is drawn in
  Warm as (255, 255, 0) against the base (255, 100, 0).
\<close>

theorem radial_overbright:
  assumes "y < unat h" "x < unat w" "1 < radial_intensity w h bp x y"
  shows "content (radial_text scheme w h bp ! y ! x) = BlackCircle \<and>
         color_le (test_get_color_for_scheme scheme 1 0) (fg (radial_text scheme w h bp ! y ! x))"
proof -
  define i where "i = radial_intensity w h bp x y"
  have "f64_round (7/10) < i" using assms(3) by (simp only: f64_lit_0_7 i_def) simp
  then have "radial_cell scheme i = styled BlackCircle (test_get_color_for_scheme scheme i 0)"
    by (simp add: radial_cell_def)
  moreover have "color_le (test_get_color_for_scheme scheme 1 0) (test_get_color_for_scheme scheme i 0)"
    using assms(3) by (intro test_get_color_for_scheme_mono) (simp add: i_def)
  ultimately show ?thesis
    using radial_text_cell [OF assms(1,2), of scheme bp] by (simp add: i_def)
qed

theorem radial_overbright_witness:
  "1 < unat (2::u16) \<and> 1 < unat (2::u16) \<and> 1 < radial_intensity 2 2 (1/2) 1 1 \<and>
   radial_text TWarm 2 2 (1/2) ! 1 ! 1 = styled BlackCircle (Rgb 255 255 0) \<and>
   test_get_color_for_scheme TWarm 1 0 = Rgb 255 100 0"
proof -
  have c: "fdiv (f64_of_word (2::u16)) 2 = 1"
    by (simp add: fdiv_def f64_of_word_def f64_round_one)
  have o: "fmul (1/2) 15 = 15/2"
    using f64_round_half_int [of 15] by (simp add: fmul_def)
  have d: "fsub 0 (15/2) = - (15/2)"
    using f64_round_half_int [of "-15"] by (simp add: fsub_def)
  have p: "f64_rem (- (15/2)) 5 = - (5/2)"
    by (simp add: f64_rem_def trunc_f64_def)
  have q: "fsub 1 (- (5/2)) = 7/2"
    using f64_round_half_int [of 7] by (simp add: fsub_def)
  have i: "radial_intensity 2 2 (1/2) 1 1 = 7/2"
    by (simp add: radial_intensity_def Let_def c o d p q)
  have "radial_cell TWarm (7/2) = styled BlackCircle (test_get_color_for_scheme TWarm (7/2) 0)"
    by (simp only: radial_cell_def f64_lit_0_7) simp
  moreover have "u8_scale 255 (7/2) = 255" "u8_scale 100 (7/2) = 255"
    by (simp_all add: u8_scale_saturates f64_of_word_def)
  ultimately have cell: "radial_cell TWarm (7/2) = styled BlackCircle (Rgb 255 255 0)"
    by (simp add: apply_intensity_def)
  have "radial_text TWarm 2 2 (1/2) ! 1 ! 1 = radial_cell TWarm (radial_intensity 2 2 (1/2) 1 1)"
    by (rule radial_text_cell) simp_all
  also have "\<dots> = radial_cell TWarm (7/2)" by (simp only: i)
  also have "\<dots> = styled BlackCircle (Rgb 255 255 0)" by (rule cell)
  finally have t: "radial_text TWarm 2 2 (1/2) ! 1 ! 1 = styled BlackCircle (Rgb 255 255 0)" .
  have i1: "1 < radial_intensity 2 2 (1/2) 1 1" by (simp only: i)
  have "content (radial_text TWarm 2 2 (1/2) ! 1 ! 1) = BlackCircle \<and>
        color_le (test_get_color_for_scheme TWarm 1 0) (fg (radial_text TWarm 2 2 (1/2) ! 1 ! 1))"
    by (rule radial_overbright [OF _ _ i1]) simp_all
  then show ?thesis using t i by (simp add: apply_intensity_def)
qed

end
