(* ===== verification/App.thy ===== *)
theory App
  imports Wave
begin

text \<open>
  The test binary \<open>src/waveform_test/src/main.rs\<close>: its \<open>App\<close> state (colour
  scheme index, start instant, simulated tempo), the key handlers that change it, the
  radial renderer driven by it, and \<open>main\<close>'s event loop with the terminal set-up and
  tear-down around it. Time is an abstract instant in nanoseconds; every input the
  loop reads from the outside world (the outcome of drawing, polling and reading an
  event, and the clock) is one record per iteration, so that a run of the program is
  a list of such records. A run that has not quit when the records end is still
  running: the loop is a recursion over the list, and never loops forever in HOL.
  The lemmas show the invariant that keeps the index and the tempo in range, that
  the two colour handlers undo each other, that a quit key always ends the loop and
  which terminal state each way out of \<open>main\<close> leaves behind.
\<close>

subsection \<open>State and handlers\<close>

record app =
  current_color_scheme :: usize
  start_time :: instant
  simulated_bpm :: real

definition app_new :: "instant \<Rightarrow> app" where
  "app_new now = \<lparr>current_color_scheme = 0, start_time = now, simulated_bpm = 120\<rparr>"

definition next_color :: "app \<Rightarrow> app" where
  "next_color a = a\<lparr>current_color_scheme := (current_color_scheme a + 1) mod 6\<rparr>"

definition prev_color :: "app \<Rightarrow> app" where
  "prev_color a =
     (if current_color_scheme a = 0 then a\<lparr>current_color_scheme := 5\<rparr>
      else a\<lparr>current_color_scheme := current_color_scheme a - 1\<rparr>)"

definition increase_bpm :: "app \<Rightarrow> app" where
  "increase_bpm a = a\<lparr>simulated_bpm := min (fadd (simulated_bpm a) 10) 200\<rparr>"

definition decrease_bpm :: "app \<Rightarrow> app" where
  "decrease_bpm a = a\<lparr>simulated_bpm := max (fsub (simulated_bpm a) 10) 60\<rparr>"

definition color_scheme :: "app \<Rightarrow> test_color_scheme" where
  "color_scheme a =
     (let i = current_color_scheme a in
      if i = 0 then TCyan else if i = 1 then TWarm else if i = 2 then TPurple
      else if i = 3 then TGreen else if i = 4 then TSunset else TOcean)"

definition color_scheme_name :: "app \<Rightarrow> string" where
  "color_scheme_name a = (case color_scheme a of
      TCyan \<Rightarrow> ''Cyan (Default)''
    | TWarm \<Rightarrow> ''Warm (Orange/Red)''
    | TPurple \<Rightarrow> ''Purple/Magenta''
    | TGreen \<Rightarrow> ''Green/Emerald''
    | TSunset \<Rightarrow> ''Sunset Gradient''
    | TOcean \<Rightarrow> ''Ocean (Deep Blue)'')"

subsection \<open>Events and the key dispatch\<close>

text \<open>\<open>crossterm\<close>'s key codes as the dispatch distinguishes them.\<close>

datatype key_code = KChar char | KLeft | KRight | KUp | KDown | KOther

datatype event = Key key_code | OtherEvent

text \<open>The loop body's outcome: go on with a state, or \<open>break\<close>.\<close>

datatype control = Continue app | Quit

text \<open>The \<open>match key.code\<close> of the loop: \<open>q\<close> quits; the arms in source order.\<close>

definition handle_key :: "app \<Rightarrow> key_code \<Rightarrow> control" where
  "handle_key a k = (case k of
      KChar c \<Rightarrow>
        if c = CHR ''q'' then Quit
        else if c = CHR ''n'' then Continue (next_color a)
        else if c = CHR ''p'' then Continue (prev_color a)
        else Continue a
    | KRight \<Rightarrow> Continue (next_color a)
    | KLeft \<Rightarrow> Continue (prev_color a)
    | KUp \<Rightarrow> Continue (increase_bpm a)
    | KDown \<Rightarrow> Continue (decrease_bpm a)
    | KOther \<Rightarrow> Continue a)"

subsection \<open>The radial renderer driven by the state\<close>

text \<open>
  \<open>render_concentric_waves(f, app, area)\<close> of the test binary: the beat phase from
  the time since \<open>start_time\<close> (seconds) and the simulated tempo, the rows of the
  radial field in the app's scheme, a bordered paragraph titled "Concentric Waves".
\<close>

text \<open>
  \<open>Duration::as_secs_f64\<close> on a duration of \<open>d\<close> nanoseconds:
  \<open>secs as f64 + nanos as f64 / 1e9\<close>, one division and one addition in binary64.
\<close>

definition as_secs_f64 :: "nat \<Rightarrow> real" where
  "as_secs_f64 d = fadd (real (d div 1000000000)) (fdiv (real (d mod 1000000000)) 1000000000)"

definition test_render_concentric_waves :: "frame \<Rightarrow> app \<Rightarrow> rect \<Rightarrow> instant \<Rightarrow> frame" where
  "test_render_concentric_waves f a area now =
     (let elapsed = as_secs_f64 (now - start_time a);
          bp = beat_phase elapsed (simulated_bpm a)
      in render_widget f
           \<lparr>lines = radial_text (color_scheme a) (width area) (height area) bp,
            para_block = Some (bordered ''Concentric Waves'')\<rparr> area)"

subsection \<open>The event loop\<close>

datatype io_error = IoError

text \<open>
  One iteration's view of the outside world: whether drawing failed, the outcome of
  \<open>event::poll\<close> within the timeout (an error, or whether an event is ready), the
  outcome of \<open>event::read\<close>, the instant of the closing \<open>last_tick.elapsed()\<close>
  check (line 120), and the later \<open>Instant::now()\<close> that becomes the new
  \<open>last_tick\<close> (line 121).
\<close>

record tick_input =
  draw_result :: "io_error option"
  poll_result :: "io_error + bool"
  read_result :: "io_error + event"
  check_time :: instant
  reset_time :: instant

definition tick_rate :: nat where
  "tick_rate = 50000000"

text \<open>\<open>tick_rate.checked_sub(last_tick.elapsed()).unwrap_or(0)\<close>.\<close>

definition poll_timeout :: "instant \<Rightarrow> instant \<Rightarrow> nat" where
  "poll_timeout last_tick now =
     (let elapsed = now - last_tick in
      case (if elapsed \<le> tick_rate then Some (tick_rate - elapsed) else None) of
        Some d \<Rightarrow> d | None \<Rightarrow> 0)"

datatype loop_result = LoopQuit app | LoopError io_error | LoopRunning app instant

text \<open>
  One iteration: draw (\<open>?\<close>), poll (\<open>?\<close>), read and dispatch a key (\<open>?\<close>), then
  move \<open>last_tick\<close> when a tick has passed. \<open>Inl\<close> ends the loop, \<open>Inr\<close> goes on.
\<close>

definition loop_step :: "app \<Rightarrow> instant \<Rightarrow> tick_input \<Rightarrow> loop_result + (app \<times> instant)" where
  "loop_step a last_tick inp =
     (case draw_result inp of
        Some e \<Rightarrow> Inl (LoopError e)
      | None \<Rightarrow>
          (case poll_result inp of
             Inl e \<Rightarrow> Inl (LoopError e)
           | Inr ready \<Rightarrow>
               (let after_key =
                  (if ready then
                     (case read_result inp of
                        Inl e \<Rightarrow> Inl (LoopError e)
                      | Inr (Key k) \<Rightarrow>
                          (case handle_key a k of Quit \<Rightarrow> Inl (LoopQuit a) | Continue a' \<Rightarrow> Inr a')
                      | Inr OtherEvent \<Rightarrow> Inr a)
                   else Inr a)
                in case after_key of
                     Inl r \<Rightarrow> Inl r
                   | Inr a' \<Rightarrow>
                       Inr (a', if tick_rate \<le> check_time inp - last_tick then reset_time inp else last_tick))))"

fun run_loop :: "app \<Rightarrow> instant \<Rightarrow> tick_input list \<Rightarrow> loop_result" where
  "run_loop a last_tick [] = LoopRunning a last_tick"
| "run_loop a last_tick (inp # inps) =
     (case loop_step a last_tick inp of
        Inl r \<Rightarrow> r
      | Inr (a', t') \<Rightarrow> run_loop a' t' inps)"

subsection \<open>Terminal set-up and tear-down\<close>

record term_state =
  raw_mode :: bool
  alt_screen :: bool
  cursor_hidden :: bool

text \<open>
  The outcomes of \<open>main\<close>'s calls into the terminal: enabling raw mode, entering the
  alternate screen, creating the ratatui \<open>Terminal\<close> (which does not touch the
  cursor), the three restoring calls after the loop, and the \<open>show_cursor\<close> that
  \<open>Terminal\<close>'s \<open>Drop\<close> issues when \<open>main\<close> returns with the cursor hidden.
\<close>

record main_env =
  enable_raw :: "io_error option"
  enter_alt :: "io_error option"
  new_terminal :: "io_error option"
  start_instant :: instant
  ticks :: "tick_input list"
  disable_raw :: "io_error option"
  leave_alt :: "io_error option"
  show_cursor :: "io_error option"
  drop_show :: "io_error option"

text \<open>
  \<open>Terminal::draw\<close> hides the cursor once a frame has been flushed (\<open>ui\<close> sets no
  cursor position). Every iteration draws first and the loop stops at the first
  failing draw, so the cursor is hidden after the loop exactly when the first
  draw succeeded. A failed draw is taken to leave the cursor as it was.
\<close>

definition loop_hid_cursor :: "tick_input list \<Rightarrow> bool" where
  "loop_hid_cursor inps = (case inps of [] \<Rightarrow> False | inp # _ \<Rightarrow> draw_result inp = None)"

text \<open>
  \<open>impl Drop for Terminal\<close>: a \<open>Terminal\<close> whose cursor is hidden shows it again
  when it goes out of scope; an error of that call is only printed.
\<close>

definition drop_terminal :: "main_env \<Rightarrow> bool \<Rightarrow> term_state \<Rightarrow> term_state" where
  "drop_terminal env hidden t = t\<lparr>cursor_hidden := hidden \<and> drop_show env \<noteq> None\<rparr>"

datatype main_result = Exited "io_error + unit" term_state | Running term_state

text \<open>
  \<open>main\<close>: each \<open>?\<close> returns the error at once, leaving the terminal as it is at
  that point; a loop that has not quit when the inputs end is still \<open>Running\<close>.
\<close>

definition main :: "main_env \<Rightarrow> main_result" where
  "main env =
     (let t0 = \<lparr>raw_mode = False, alt_screen = False, cursor_hidden = False\<rparr> in
      case enable_raw env of Some e \<Rightarrow> Exited (Inl e) t0 | None \<Rightarrow>
      let t1 = t0\<lparr>raw_mode := True\<rparr> in
      case enter_alt env of Some e \<Rightarrow> Exited (Inl e) t1 | None \<Rightarrow>
      let t2 = t1\<lparr>alt_screen := True\<rparr> in
      case new_terminal env of Some e \<Rightarrow> Exited (Inl e) t2 | None \<Rightarrow>
      let hidden = loop_hid_cursor (ticks env) in
      case run_loop (app_new (start_instant env)) (start_instant env) (ticks env) of
        LoopError e \<Rightarrow> Exited (Inl e) (drop_terminal env hidden t2)
      | LoopRunning _ _ \<Rightarrow> Running (t2\<lparr>cursor_hidden := hidden\<rparr>)
      | LoopQuit _ \<Rightarrow>
          (case disable_raw env of Some e \<Rightarrow> Exited (Inl e) (drop_terminal env hidden t2) | None \<Rightarrow>
           let t4 = t2\<lparr>raw_mode := False\<rparr> in
           case leave_alt env of Some e \<Rightarrow> Exited (Inl e) (drop_terminal env hidden t4) | None \<Rightarrow>
           let t5 = t4\<lparr>alt_screen := False\<rparr> in
           case show_cursor env of Some e \<Rightarrow> Exited (Inl e) (drop_terminal env hidden t5) | None \<Rightarrow>
           Exited (Inr ()) (t5\<lparr>cursor_hidden := False\<rparr>)))"

subsection \<open>Reachable states\<close>

inductive reachable_app :: "app \<Rightarrow> bool" where
  init: "reachable_app (app_new t)"
| step: "reachable_app a \<Longrightarrow> handle_key a k = Continue a' \<Longrightarrow> reachable_app a'"

inductive_cases reachable_appE: "reachable_app a"

subsection \<open>Specification vocabulary\<close>

text \<open>The scheme cycle the two colour keys walk, as the title shows it.\<close>

fun next_scheme :: "test_color_scheme \<Rightarrow> test_color_scheme" where
  "next_scheme TCyan = TWarm"
| "next_scheme TWarm = TPurple"
| "next_scheme TPurple = TGreen"
| "next_scheme TGreen = TSunset"
| "next_scheme TSunset = TOcean"
| "next_scheme TOcean = TCyan"

fun prev_scheme :: "test_color_scheme \<Rightarrow> test_color_scheme" where
  "prev_scheme TCyan = TOcean"
| "prev_scheme TWarm = TCyan"
| "prev_scheme TPurple = TWarm"
| "prev_scheme TGreen = TPurple"
| "prev_scheme TSunset = TGreen"
| "prev_scheme TOcean = TSunset"

text \<open>An iteration in which no call fails.\<close>

definition tick_ok :: "tick_input \<Rightarrow> bool" where
  "tick_ok inp \<longleftrightarrow> draw_result inp = None \<and>
     (case poll_result inp of Inl _ \<Rightarrow> False
      | Inr ready \<Rightarrow> \<not> ready \<or> (case read_result inp of Inl _ \<Rightarrow> False | Inr _ \<Rightarrow> True))"

text \<open>An iteration that reads the quit key.\<close>

definition quit_tick :: "tick_input \<Rightarrow> bool" where
  "quit_tick inp \<longleftrightarrow> draw_result inp = None \<and> poll_result inp = Inr True \<and>
     read_result inp = Inr (Key (KChar (CHR ''q'')))"

text \<open>The invariant of the state: an index in range and an integral tempo in [60, 200].\<close>

definition app_inv :: "app \<Rightarrow> bool" where
  "app_inv a \<longleftrightarrow> unat (current_color_scheme a) < 6 \<and>
     (\<exists>n::nat. simulated_bpm a = real n \<and> 60 \<le> n \<and> n \<le> 200)"

subsection \<open>Lemmas\<close>

lemma usize_below_6:
  fixes c :: usize
  assumes "unat c < 6"
  shows "c = 0 \<or> c = 1 \<or> c = 2 \<or> c = 3 \<or> c = 4 \<or> c = 5"
proof -
  have "unat c = 0 \<or> unat c = 1 \<or> unat c = 2 \<or> unat c = 3 \<or> unat c = 4 \<or> unat c = 5"
    using assms by arith
  then show ?thesis by (auto simp: word_unat_eq_iff)
qed

lemma next_color_index: "unat (current_color_scheme (next_color a)) < 6"
  by (simp add: next_color_def unat_mod)

lemma prev_color_index: "unat (current_color_scheme a) < 6 \<Longrightarrow> unat (current_color_scheme (prev_color a)) < 6"
  by (auto simp: prev_color_def unat_minus_one)

lemma increase_bpm_nat:
  assumes "simulated_bpm a = real n" "n \<le> 200"
  shows "simulated_bpm (increase_bpm a) = real (min (n + 10) 200)"
proof -
  have "fadd (real n) 10 = real (n + 10)"
    using f64_round_nat [of "n + 10"] assms(2) by (simp add: fadd_def)
  then show ?thesis using assms(1) by (simp add: increase_bpm_def min_def)
qed

lemma decrease_bpm_nat:
  assumes "simulated_bpm a = real n" "60 \<le> n" "n \<le> 200"
  shows "simulated_bpm (decrease_bpm a) = real (max (n - 10) 60)"
proof -
  have "real n - 10 = real (n - 10)" using assms(2) by (simp add: of_nat_diff)
  moreover have "f64_round (real (n - 10)) = real (n - 10)"
    by (rule f64_round_nat, rule small_nat_less_2p53) (use assms(3) in linarith)
  ultimately have "fsub (real n) 10 = real (n - 10)" by (simp only: fsub_def)
  then show ?thesis using assms(1) by (simp add: decrease_bpm_def max_def)
qed

lemma handle_key_inv:
  assumes "app_inv a" "handle_key a k = Continue a'"
  shows "app_inv a'"
proof -
  obtain n where n: "simulated_bpm a = real n" "60 \<le> n" "n \<le> 200" "unat (current_color_scheme a) < 6"
    using assms(1) by (auto simp: app_inv_def)
  have nc: "app_inv (next_color a)"
    using n next_color_index [of a] by (auto simp: app_inv_def next_color_def)
  have pc: "app_inv (prev_color a)"
    using n prev_color_index [of a] by (auto simp: app_inv_def prev_color_def)
  have ib: "app_inv (increase_bpm a)"
    using n increase_bpm_nat [of a n] unfolding app_inv_def
    by (intro conjI exI [of _ "min (n + 10) 200"]) (auto simp: increase_bpm_def)
  have db: "app_inv (decrease_bpm a)"
    using n decrease_bpm_nat [of a n] unfolding app_inv_def
    by (intro conjI exI [of _ "max (n - 10) 60"]) (auto simp: decrease_bpm_def)
  show ?thesis
    using assms(1,2) nc pc ib db
    by (cases k) (auto simp: handle_key_def split: if_splits)
qed

lemma reachable_app_inv: "reachable_app a \<Longrightarrow> app_inv a"
proof (induction rule: reachable_app.induct)
  case (init t)
  show ?case by (auto simp: app_inv_def app_new_def intro: exI [of _ 120])
next
  case (step a k a')
  from step.IH step.hyps(2) show ?case by (rule handle_key_inv)
qed

lemma loop_step_ok:
  assumes "tick_ok inp"
  shows "loop_step a t inp = Inl (LoopQuit a) \<or>
         (\<exists>a' t'. loop_step a t inp = Inr (a', t') \<and> (reachable_app a \<longrightarrow> reachable_app a'))"
proof -
  obtain ready where p: "poll_result inp = Inr ready" and d: "draw_result inp = None"
    using assms by (auto simp: tick_ok_def split: sum.splits)
  show ?thesis
  proof (cases ready)
    case False
    with p d show ?thesis by (simp add: loop_step_def)
  next
    case True
    with assms p obtain ev where r: "read_result inp = Inr ev"
      by (auto simp: tick_ok_def split: sum.splits)
    show ?thesis
    proof (cases ev)
      case (Key k)
      show ?thesis
      proof (cases "handle_key a k")
        case (Continue a')
        then have "reachable_app a \<longrightarrow> reachable_app a'" by (blast intro: reachable_app.step)
        with Continue Key True p d r show ?thesis by (simp add: loop_step_def)
      next
        case Quit
        with Key True p d r show ?thesis by (simp add: loop_step_def)
      qed
    next
      case OtherEvent
      with True p d r show ?thesis by (simp add: loop_step_def)
    qed
  qed
qed

lemma loop_step_quit: "quit_tick q \<Longrightarrow> loop_step a t q = Inl (LoopQuit a)"
  by (simp add: quit_tick_def loop_step_def handle_key_def)

lemma run_loop_append_quit:
  assumes "reachable_app a" "list_all tick_ok inps" "quit_tick q"
  shows "\<exists>a'. run_loop a t (inps @ [q]) = LoopQuit a' \<and> reachable_app a'"
  using assms(1,2)
proof (induction inps arbitrary: a t)
  case Nil
  then show ?case using loop_step_quit [OF assms(3)] by simp
next
  case (Cons inp inps)
  then have ok: "tick_ok inp" "list_all tick_ok inps" by simp_all
  from loop_step_ok [OF ok(1), of a t] show ?case
  proof
    assume "loop_step a t inp = Inl (LoopQuit a)"
    with Cons.prems show ?thesis by simp
  next
    assume "\<exists>a' t'. loop_step a t inp = Inr (a', t') \<and> (reachable_app a \<longrightarrow> reachable_app a')"
    then obtain a' t' where s: "loop_step a t inp = Inr (a', t')" "reachable_app a'"
      using Cons.prems by blast
    from Cons.IH [OF s(2) ok(2)] s(1) show ?thesis by simp
  qed
qed

subsection \<open>Properties\<close>

text \<open>
  C13: in every state the key handlers can reach from \<open>App::new\<close>, the scheme index
  is below 6 and the simulated tempo is a whole number of beats per minute between
  60 and 200.
\<close>

theorem reachable_app_in_range:
  assumes "reachable_app a"
  shows "unat (current_color_scheme a) < 6 \<and> 60 \<le> simulated_bpm a \<and> simulated_bpm a \<le> 200 \<and>
         simulated_bpm a = of_int \<lfloor>simulated_bpm a\<rfloor>"
proof -
  from reachable_app_inv [OF assms] obtain n where
    "unat (current_color_scheme a) < 6" "simulated_bpm a = real n" "60 \<le> n" "n \<le> 200"
    by (auto simp: app_inv_def)
  then show ?thesis by simp
qed

theorem reachable_app_in_range_witness:
  "reachable_app (increase_bpm (app_new 0)) \<and>
   unat (current_color_scheme (increase_bpm (app_new 0))) < 6 \<and>
   60 \<le> simulated_bpm (increase_bpm (app_new 0)) \<and> simulated_bpm (increase_bpm (app_new 0)) \<le> 200 \<and>
   simulated_bpm (increase_bpm (app_new 0)) = of_int \<lfloor>simulated_bpm (increase_bpm (app_new 0))\<rfloor>"
proof -
  have r: "reachable_app (increase_bpm (app_new 0))"
    by (rule reachable_app.step [OF reachable_app.init, of 0 KUp]) (simp add: handle_key_def)
  show ?thesis using r reachable_app_in_range [OF r] by blast
qed

text \<open>
  C14: on every index in range, the index arithmetic of \<open>next_color\<close> and
  \<open>prev_color\<close> refines the cyclic order of the six schemes:
  Cyan, Warm, Purple, Green, Sunset, Ocean and back.
\<close>

theorem color_scheme_cycle:
  assumes "unat (current_color_scheme a) < 6"
  shows "color_scheme (next_color a) = next_scheme (color_scheme a) \<and>
         color_scheme (prev_color a) = prev_scheme (color_scheme a)"
  using usize_below_6 [OF assms]
  by (elim disjE) (simp_all add: color_scheme_def next_color_def prev_color_def)

theorem color_scheme_cycle_witness:
  "unat (current_color_scheme (app_new 0)) < 6 \<and>
   color_scheme (next_color (app_new 0)) = next_scheme (color_scheme (app_new 0)) \<and>
   color_scheme (prev_color (app_new 0)) = prev_scheme (color_scheme (app_new 0))"
  using color_scheme_cycle [of "app_new 0"] by (simp add: app_new_def)

text \<open>
  C15: on every index in range, \<open>prev_color\<close> undoes \<open>next_color\<close> and
  \<open>next_color\<close> undoes \<open>prev_color\<close>.
\<close>

theorem prev_next_color:
  assumes "unat (current_color_scheme a) < 6"
  shows "prev_color (next_color a) = a \<and> next_color (prev_color a) = a"
  using usize_below_6 [OF assms]
  by (elim disjE) (simp_all add: next_color_def prev_color_def)

theorem prev_next_color_witness:
  "unat (current_color_scheme ((app_new 0)\<lparr>current_color_scheme := 5\<rparr>)) < 6 \<and>
   prev_color (next_color ((app_new 0)\<lparr>current_color_scheme := 5\<rparr>)) = (app_new 0)\<lparr>current_color_scheme := 5\<rparr> \<and>
   next_color (prev_color ((app_new 0)\<lparr>current_color_scheme := 5\<rparr>)) = (app_new 0)\<lparr>current_color_scheme := 5\<rparr>"
  using prev_next_color [of "(app_new 0)\<lparr>current_color_scheme := 5\<rparr>"] by simp

text \<open>
  C16: from a reachable state, any run of iterations in which no call fails,
  followed by an iteration that reads \<open>q\<close>, ends the loop normally, in a reachable
  state.
\<close>

theorem run_loop_quits:
  assumes "reachable_app a" "list_all tick_ok inps" "quit_tick q"
  shows "\<exists>a'. run_loop a t (inps @ [q]) = LoopQuit a' \<and> reachable_app a'"
  using assms by (rule run_loop_append_quit)

theorem run_loop_quits_witness:
  "reachable_app (app_new 0) \<and> list_all tick_ok [] \<and>
   quit_tick \<lparr>draw_result = None, poll_result = Inr True,
              read_result = Inr (Key (KChar (CHR ''q''))), check_time = 0, reset_time = 0\<rparr> \<and>
   (\<exists>a'. run_loop (app_new 0) 0 ([] @ [\<lparr>draw_result = None, poll_result = Inr True,
              read_result = Inr (Key (KChar (CHR ''q''))), check_time = 0, reset_time = 0\<rparr>]) = LoopQuit a' \<and>
          reachable_app a')"
proof -
  have q: "quit_tick \<lparr>draw_result = None, poll_result = Inr True,
              read_result = Inr (Key (KChar (CHR ''q''))), check_time = 0, reset_time = 0\<rparr>"
    by (simp add: quit_tick_def)
  show ?thesis
    using run_loop_quits [where a = "app_new 0" and inps = "[]" and t = 0] q reachable_app.init [of 0]
    by simp
qed

text \<open>
  C17: when the event loop fails with an I/O error, \<open>main\<close> returns the error with
  raw mode still on and the alternate screen still entered: the \<open>?\<close> returns before
  \<open>disable_raw_mode\<close> and \<open>LeaveAlternateScreen\<close>. Only the cursor comes back,
  through \<open>Terminal\<close>'s \<open>Drop\<close>.
\<close>

theorem main_loop_error_leaves_raw_mode:
  assumes "enable_raw env = None" "enter_alt env = None" "new_terminal env = None"
    and "run_loop (app_new (start_instant env)) (start_instant env) (ticks env) = LoopError e"
    and "drop_show env = None"
  shows "main env = Exited (Inl e) \<lparr>raw_mode = True, alt_screen = True, cursor_hidden = False\<rparr>"
  using assms by (simp add: main_def drop_terminal_def)

theorem main_loop_error_leaves_raw_mode_witness:
  "main \<lparr>enable_raw = None, enter_alt = None, new_terminal = None, start_instant = 0,
         ticks = [\<lparr>draw_result = None, poll_result = Inl IoError,
                   read_result = Inr OtherEvent, check_time = 0, reset_time = 0\<rparr>],
         disable_raw = None, leave_alt = None, show_cursor = None, drop_show = None\<rparr>
   = Exited (Inl IoError) \<lparr>raw_mode = True, alt_screen = True, cursor_hidden = False\<rparr>"
  by (rule main_loop_error_leaves_raw_mode) (simp_all add: loop_step_def)

text \<open>
  C18: when the loop ends with \<open>q\<close> and the three restoring calls succeed, \<open>main\<close>
  returns \<open>Ok(())\<close> with raw mode off, the main screen back and the cursor shown.
\<close>

theorem main_quit_restores_terminal:
  assumes "enable_raw env = None" "enter_alt env = None" "new_terminal env = None"
    and "run_loop (app_new (start_instant env)) (start_instant env) (ticks env) = LoopQuit a"
    and "disable_raw env = None" "leave_alt env = None" "show_cursor env = None"
  shows "main env = Exited (Inr ()) \<lparr>raw_mode = False, alt_screen = False, cursor_hidden = False\<rparr>"
  using assms by (simp add: main_def)

theorem main_quit_restores_terminal_witness:
  "main \<lparr>enable_raw = None, enter_alt = None, new_terminal = None, start_instant = 0,
         ticks = [\<lparr>draw_result = None, poll_result = Inr True,
                   read_result = Inr (Key (KChar (CHR ''q''))), check_time = 0, reset_time = 0\<rparr>],
         disable_raw = None, leave_alt = None, show_cursor = None, drop_show = None\<rparr>
   = Exited (Inr ()) \<lparr>raw_mode = False, alt_screen = False, cursor_hidden = False\<rparr>"
  by (rule main_quit_restores_terminal [of _ "app_new 0"]) (simp_all add: loop_step_def handle_key_def)

end
