(* ===== verification/Palette.thy ===== *)
theory Palette
  imports Scheme
begin

text \<open>
  The palette deriver of \<open>src/spotify_player/src/ui/visualizations.rs\<close>:
  \<open>AlbumPalette\<close> with its default of four cyan tones, and
  \<open>generate_color_palette\<close>, which expands one base colour into six: the base, its
  complement \<open>255 - c\<close> (\<open>saturating_sub\<close>), two analogous blends with the
  binary64 weights 0.8 and 0.2 in two channel rotations, a lighter shade
  (\<open>saturating_add 60\<close>) and a darker one (\<open>saturating_sub 60\<close>). The lemmas show
  that the complement is exact and involutive, that the shades saturate at the
  channel range, and that a blend never exceeds the brighter of its two channels
  even though the two binary64 weights add up to slightly more than 1.
\<close>

record album_palette =
  colors :: "rgb list"

definition album_palette_default :: album_palette where
  "album_palette_default =
     \<lparr>colors = [(0, 255, 255), (0, 200, 255), (50, 150, 255), (100, 100, 255)]\<rparr>"

text \<open>\<open>((a as f64 * wa + b as f64 * wb) as u8).min(255)\<close>.\<close>

definition mix :: "u8 \<Rightarrow> real \<Rightarrow> u8 \<Rightarrow> real \<Rightarrow> u8" where
  "mix a wa b wb = min (f64_to_word (fadd (fmul (f64_of_word a) wa) (fmul (f64_of_word b) wb))) 255"

definition generate_color_palette :: "u8 \<Rightarrow> u8 \<Rightarrow> u8 \<Rightarrow> album_palette" where
  "generate_color_palette r g b =
     \<lparr>colors =
        [(r, g, b),
         (saturating_sub 255 r, saturating_sub 255 g, saturating_sub 255 b),
         (mix r (f64_round (8/10)) g (f64_round (2/10)), mix g (f64_round (8/10)) b (f64_round (2/10)),
          mix b (f64_round (8/10)) r (f64_round (2/10))),
         (mix r (f64_round (2/10)) b (f64_round (8/10)), mix g (f64_round (2/10)) r (f64_round (8/10)),
          mix b (f64_round (2/10)) g (f64_round (8/10))),
         (saturating_add r 60, saturating_add g 60, saturating_add b 60),
         (saturating_sub r 60, saturating_sub g 60, saturating_sub b 60)]\<rparr>"

text \<open>The channels of a colour as numbers.\<close>

definition rgb_unat :: "rgb \<Rightarrow> nat \<times> nat \<times> nat" where
  "rgb_unat c = (case c of (r, g, b) \<Rightarrow> (unat r, unat g, unat b))"

lemma mix_le_max:
  assumes wa: "0 \<le> wa" and wb: "0 \<le> wb" and w: "wa + wb \<le> 1 + 1 / 2 ^ 50"
  shows "mix a wa b wb \<le> max a b"
proof -
  define M where "M = f64_of_word (max a b)"
  have M0: "0 \<le> M" and M255: "M \<le> 255"
    using unat_u8_le [of "max a b"] by (simp_all add: M_def f64_of_word_def)
  have A: "f64_of_word a \<le> M" and B: "f64_of_word b \<le> M"
    by (simp_all add: M_def f64_of_word_def word_le_nat_alt [symmetric])
  define p where "p = fmul (f64_of_word a) wa"
  define q where "q = fmul (f64_of_word b) wb"
  have p0: "0 \<le> p" and q0: "0 \<le> q"
    using wa wb by (simp_all add: p_def q_def fmul_def f64_round_nonneg f64_of_word_nonneg)
  have p: "p \<le> (M * wa) * (1 + 1 / 2 ^ 53) + f64_tiny"
    unfolding p_def fmul_def
    by (rule f64_round_le_factor) (simp_all add: wa f64_of_word_nonneg A mult_right_mono)
  have q: "q \<le> (M * wb) * (1 + 1 / 2 ^ 53) + f64_tiny"
    unfolding q_def fmul_def
    by (rule f64_round_le_factor) (simp_all add: wb f64_of_word_nonneg B mult_right_mono)
  have Mw: "M * (wa + wb) \<le> M * (1 + 1 / 2 ^ 50)"
    using w M0 by (rule mult_left_mono)
  have pq: "p + q \<le> M * (1 + 1 / 2 ^ 50) * (1 + 1 / 2 ^ 53) + 2 * f64_tiny"
  proof -
    have "p + q \<le> (M * wa) * (1 + 1 / 2 ^ 53) + (M * wb) * (1 + 1 / 2 ^ 53) + 2 * f64_tiny"
      using p q by linarith
    also have "\<dots> = M * (wa + wb) * (1 + 1 / 2 ^ 53) + 2 * f64_tiny"
      by (simp add: algebra_simps)
    also have "\<dots> \<le> M * (1 + 1 / 2 ^ 50) * (1 + 1 / 2 ^ 53) + 2 * f64_tiny"
      using Mw by simp
    finally show ?thesis .
  qed
  define s where "s = fadd p q"
  have s0: "0 \<le> s" using p0 q0 by (simp add: s_def fadd_def f64_round_nonneg)
  have "s \<le> (M * (1 + 1 / 2 ^ 50) * (1 + 1 / 2 ^ 53) + 2 * f64_tiny) * (1 + 1 / 2 ^ 53) + f64_tiny"
    unfolding s_def fadd_def using p0 q0 pq by (intro f64_round_le_factor) simp_all
  also have "\<dots> < M + 1"
    using M255 M0 f64_tiny_small f64_tiny_pos by (simp add: algebra_simps)
  finally have "s < M + 1" .
  moreover have "M = real (unat (max a b))" by (simp add: M_def f64_of_word_def)
  ultimately have "unat (f64_to_word s :: u8) \<le> unat (max a b)"
    using f64_to_word_le_nat [OF s0] by simp
  then have "f64_to_word s \<le> max a b" by (simp add: word_le_nat_alt)
  then show ?thesis by (simp add: mix_def s_def p_def q_def min.coboundedI1)
qed

lemma palette_weights:
  "0 \<le> f64_round (8/10)" "0 \<le> f64_round (2/10)"
  "f64_round (8/10) + f64_round (2/10) \<le> 1 + 1 / 2 ^ 50"
  "f64_round (2/10) + f64_round (8/10) \<le> 1 + 1 / 2 ^ 50"
  by (simp_all only: f64_lit_0_8 f64_lit_0_2) simp_all

lemmas mix_le_max_palette = mix_le_max [OF palette_weights(1,2,3)] mix_le_max [OF palette_weights(2,1,4)]

lemma complement_u8: "unat (saturating_sub 255 c :: u8) = 255 - unat c"
  by (simp add: unat_saturating_sub)

text \<open>
  C22: each channel of the two analogous blends is at most the larger of the two
  channels it blends: the binary64 weights 0.8 and 0.2 sum to 1 + 2^-54, but the
  three rounding errors and the excess stay below one unit, which the truncating
  cast removes. (The \<open>.min(255)\<close> of the source is therefore redundant.)
\<close>

theorem palette_analogous_le_max:
  "rgb_le (colors (generate_color_palette r g b) ! 2) (max r g, max g b, max b r) \<and>
   rgb_le (colors (generate_color_palette r g b) ! 3) (max r b, max g r, max b g)"
  using mix_le_max_palette by (simp add: generate_color_palette_def)

text \<open>
  C23: the lighter shade adds 60 to every channel and saturates at 255; the darker
  one subtracts 60 and saturates at 0.
\<close>

theorem palette_shades:
  "rgb_unat (colors (generate_color_palette r g b) ! 4) =
     (min (unat r + 60) 255, min (unat g + 60) 255, min (unat b + 60) 255) \<and>
   rgb_unat (colors (generate_color_palette r g b) ! 5) = (unat r - 60, unat g - 60, unat b - 60)"
  by (simp add: generate_color_palette_def rgb_unat_def unat_saturating_add unat_saturating_sub)

text \<open>
  C24: the complement is exact (\<open>255 - c\<close> never saturates) and deriving a palette
  from the complement gives back the base colour as its complement.
\<close>

theorem palette_complement_roundtrip:
  "rgb_unat (colors (generate_color_palette r g b) ! 1) = (255 - unat r, 255 - unat g, 255 - unat b) \<and>
   (case colors (generate_color_palette r g b) ! 1 of
      (r', g', b') \<Rightarrow> colors (generate_color_palette r' g' b') ! 1 = (r, g, b))"
proof -
  have inv: "saturating_sub 255 (saturating_sub 255 c) = (c :: u8)" for c
    using unat_u8_le [of c] by (simp add: word_unat_eq_iff complement_u8)
  show ?thesis by (simp add: generate_color_palette_def rgb_unat_def complement_u8 inv)
qed

end
