(* ===== verification/Dominant.thy ===== *)
theory Dominant
  imports Prelude
begin

text \<open>
  The dominant-colour extraction of \<open>src/spotify_player/src/utils.rs\<close>
  (\<open>extract_dominant_color\<close>): after the image library has resized the album art to
  64 by 64 and converted it to RGB (not modelled: the model starts from the
  converted image), every pixel whose coordinates are both multiples of 4 is
  sampled, samples whose integer brightness \<open>(r + g + b) / 3\<close> lies outside the open
  band (20, 235) are dropped, and the channels of the rest are averaged, with
  \<open>u64\<close> sums and a \<open>u64\<close> count. No surviving sample gives the fallback cyan.
  The reference \<open>dominant_spec\<close> states the result as a mean over a filtered
  list; the loop refines it for every image of fewer than 2^56 pixels.
\<close>

text \<open>\<open>image::RgbImage\<close>: width, height and the pixels in row-major order.\<close>

record rgb_image =
  img_width :: nat
  img_height :: nat
  img_pixels :: "rgb list"

text \<open>\<open>ImageBuffer::enumerate_pixels\<close>: \<open>(x, y, pixel)\<close> in row-major order.\<close>

definition enumerate_pixels :: "rgb_image \<Rightarrow> (nat \<times> nat \<times> rgb) list" where
  "enumerate_pixels img =
     map (\<lambda>(i, p). (i mod img_width img, i div img_width img, p)) (enumerate 0 (img_pixels img))"

text \<open>\<open>(rgb[0] as u16 + rgb[1] as u16 + rgb[2] as u16) / 3\<close>.\<close>

definition brightness :: "rgb \<Rightarrow> u16" where
  "brightness p = (case p of (r, g, b) \<Rightarrow> (ucast r + ucast g + ucast b) div 3)"

type_synonym color_sums = "u64 \<times> u64 \<times> u64 \<times> u64"

text \<open>One iteration of the sampling loop over \<open>(r_sum, g_sum, b_sum, count)\<close>.\<close>

definition sample_step :: "nat \<times> nat \<times> rgb \<Rightarrow> color_sums \<Rightarrow> color_sums" where
  "sample_step pix acc = (case pix of (x, y, (r, g, b)) \<Rightarrow> case acc of (r_sum, g_sum, b_sum, count) \<Rightarrow>
     if x mod 4 = 0 \<and> y mod 4 = 0 then
       (let br = brightness (r, g, b) in
        if 20 < br \<and> br < 235
        then (r_sum + ucast r, g_sum + ucast g, b_sum + ucast b, count + 1)
        else acc)
     else acc)"

definition extract_dominant_color :: "rgb_image \<Rightarrow> rgb" where
  "extract_dominant_color img =
     (case fold sample_step (enumerate_pixels img) (0, 0, 0, 0) of (r_sum, g_sum, b_sum, count) \<Rightarrow>
        if count = 0 then (0, 200, 255)
        else (ucast (r_sum div count), ucast (g_sum div count), ucast (b_sum div count)))"

text \<open>The specification: the samples that pass the stride and the brightness band.\<close>

definition sampled :: "nat \<times> nat \<times> rgb \<Rightarrow> bool" where
  "sampled pix = (case pix of (x, y, p) \<Rightarrow>
     x mod 4 = 0 \<and> y mod 4 = 0 \<and> 20 < brightness p \<and> brightness p < 235)"

definition samples :: "rgb_image \<Rightarrow> rgb list" where
  "samples img = map (\<lambda>(x, y, p). p) (filter sampled (enumerate_pixels img))"

definition channel_sum :: "(rgb \<Rightarrow> u8) \<Rightarrow> rgb list \<Rightarrow> nat" where
  "channel_sum ch ps = sum_list (map (\<lambda>p. unat (ch p)) ps)"

definition channel_mean :: "(rgb \<Rightarrow> u8) \<Rightarrow> rgb list \<Rightarrow> nat" where
  "channel_mean ch ps = channel_sum ch ps div length ps"

definition dominant_spec :: "rgb_image \<Rightarrow> rgb" where
  "dominant_spec img = (let ps = samples img in
     if ps = [] then (0, 200, 255)
     else (of_nat (channel_mean fst ps), of_nat (channel_mean (fst \<circ> snd) ps),
           of_nat (channel_mean (snd \<circ> snd) ps)))"

lemma ucast_u8_u64: "(ucast (c :: u8) :: u64) = of_nat (unat c)"
  by (simp add: of_nat_unat)

lemma sample_step_sampled:
  "sample_step (x, y, (r, g, b)) (rs, gs, bs, n) =
     (if sampled (x, y, (r, g, b))
      then (rs + of_nat (unat r), gs + of_nat (unat g), bs + of_nat (unat b), n + 1)
      else (rs, gs, bs, n))"
  by (simp add: sample_step_def sampled_def Let_def ucast_u8_u64)

lemma fold_sample_step:
  "fold sample_step pxs (rs, gs, bs, n) =
     (let ps = map (\<lambda>(x, y, p). p) (filter sampled pxs) in
      (rs + of_nat (channel_sum fst ps), gs + of_nat (channel_sum (fst \<circ> snd) ps),
       bs + of_nat (channel_sum (snd \<circ> snd) ps), n + of_nat (length ps)))"
proof (induction pxs arbitrary: rs gs bs n)
  case Nil
  then show ?case by (simp add: channel_sum_def)
next
  case (Cons pix pxs)
  obtain x y r g b where pix: "pix = (x, y, r, g, b)" by (cases pix) auto
  show ?case
    by (simp add: Cons.IH pix sample_step_sampled channel_sum_def Let_def algebra_simps)
qed

lemma channel_sum_le: "channel_sum ch ps \<le> 255 * length ps"
  by (induction ps) (simp_all add: channel_sum_def unat_u8_le add_mono)

lemma length_enumerate_pixels [simp]: "length (enumerate_pixels img) = length (img_pixels img)"
  by (simp add: enumerate_pixels_def)

lemma length_samples: "length (samples img) \<le> length (img_pixels img)"
  using length_filter_le [of sampled "enumerate_pixels img"] by (simp add: samples_def)

lemma mean_u64:
  assumes n: "0 < length ps" "length ps < 2 ^ 56"
  shows "(ucast ((of_nat (channel_sum ch ps) :: u64) div of_nat (length ps)) :: u8)
           = of_nat (channel_mean ch ps)"
proof -
  have "255 * length ps < 2 ^ 64" using n(2) by simp
  then have "channel_sum ch ps < 2 ^ 64"
    using channel_sum_le [of ch ps] by linarith
  moreover have "length ps < 2 ^ 64" using n(2) by simp
  ultimately have "unat ((of_nat (channel_sum ch ps) :: u64) div of_nat (length ps))
      = channel_mean ch ps"
    by (simp add: unat_div unat_of_nat channel_mean_def)
  moreover have "(ucast ((of_nat (channel_sum ch ps) :: u64) div of_nat (length ps)) :: u8)
      = of_nat (unat ((of_nat (channel_sum ch ps) :: u64) div of_nat (length ps)))"
    by (simp only: of_nat_unat)
  ultimately show ?thesis by simp
qed

lemma extract_dominant_color_mean:
  assumes "length (img_pixels img) < 2 ^ 56"
  shows "extract_dominant_color img = dominant_spec img"
proof -
  define ps where "ps = samples img"
  have len: "length ps < 2 ^ 56" using length_samples [of img] assms by (simp add: ps_def)
  have fold: "fold sample_step (enumerate_pixels img) (0, 0, 0, 0) =
      (of_nat (channel_sum fst ps), of_nat (channel_sum (fst \<circ> snd) ps),
       of_nat (channel_sum (snd \<circ> snd) ps), of_nat (length ps))"
    by (simp add: fold_sample_step ps_def samples_def Let_def)
  show ?thesis
  proof (cases "ps = []")
    case True
    then show ?thesis by (simp add: extract_dominant_color_def dominant_spec_def fold ps_def [symmetric])
  next
    case False
    then have n: "0 < length ps" by simp
    have "length ps < 2 ^ 64" using len by simp
    then have "(of_nat (length ps) :: u64) \<noteq> 0" using n by (simp add: of_nat_neq_0)
    then show ?thesis using False
      by (simp add: extract_dominant_color_def dominant_spec_def fold ps_def [symmetric]
          mean_u64 [OF n len])
  qed
qed

lemma brightness_gray: "brightness (v, v, v) = ucast v"
proof -
  have "(ucast v :: u16) = of_nat (unat v)" by (simp only: of_nat_unat)
  then have "(ucast v + ucast v + ucast v :: u16) = of_nat (3 * unat v)" by simp
  moreover have "3 * unat v < 2 ^ 16" using unat_u8_le [of v] by simp
  ultimately have "unat (ucast v + ucast v + ucast v :: u16) = 3 * unat v"
    by (simp add: unat_of_nat del: of_nat_mult)
  then have "unat (brightness (v, v, v)) = unat v"
    by (simp add: brightness_def unat_div)
  then show ?thesis by (simp add: unat_ucast_u8 word_unat_eq_iff)
qed

lemma enumerate_pixels_pixels: "map (\<lambda>(x, y, p). p) (enumerate_pixels img) = img_pixels img"
proof -
  have "(\<lambda>(x, y, p). p) \<circ> (\<lambda>(i, p). (i mod img_width img, i div img_width img, p))
      = (snd :: nat \<times> rgb \<Rightarrow> rgb)"
    by (auto simp: fun_eq_iff)
  then show ?thesis by (simp only: enumerate_pixels_def map_map map_snd_enumerate)
qed

lemma enumerate_pixels_in_set: "(x, y, p) \<in> set (enumerate_pixels img) \<Longrightarrow> p \<in> set (img_pixels img)"
  by (metis (no_types, lifting) enumerate_pixels_pixels case_prod_conv image_eqI set_map)

lemma samples_subset: "set (samples img) \<subseteq> set (img_pixels img)"
  unfolding samples_def by (auto dest: enumerate_pixels_in_set)

lemma channel_sum_const:
  "(\<forall>p \<in> set ps. p = c) \<Longrightarrow> channel_sum ch ps = length ps * unat (ch c)"
  by (induction ps) (simp_all add: channel_sum_def)

lemma samples_first:
  "img_pixels img = p # ps \<Longrightarrow> sampled (0, 0, p) \<Longrightarrow> samples img \<noteq> []"
  by (simp add: samples_def enumerate_pixels_def)

lemma channel_mean_const:
  "ps \<noteq> [] \<Longrightarrow> \<forall>p \<in> set ps. p = c \<Longrightarrow> channel_mean ch ps = unat (ch c)"
  by (simp add: channel_mean_def channel_sum_const)

lemma samples_none:
  "\<forall>p \<in> set (img_pixels img). brightness p \<le> 20 \<or> 235 \<le> brightness p \<Longrightarrow> samples img = []"
  by (auto simp: samples_def filter_empty_conv sampled_def not_less dest!: enumerate_pixels_in_set)

lemma extract_dominant_color_no_samples:
  "samples img = [] \<Longrightarrow> extract_dominant_color img = (0, 200, 255)"
  by (simp add: extract_dominant_color_def fold_sample_step channel_sum_def samples_def)

text \<open>
  C19: the sampling loop computes the specification: the channel-wise integer mean
  of the pixels at coordinates divisible by 4 whose brightness lies strictly between
  20 and 235, or the fallback cyan (0, 200, 255) when there is none. The \<open>u64\<close> sums
  and count never wrap and the final \<open>as u8\<close> casts lose nothing, for every image of
  fewer than 2^56 pixels (the program's 64 by 64 image has 4096).
\<close>

theorem extract_dominant_color_refines:
  "length (img_pixels img) < 2 ^ 56 \<Longrightarrow> extract_dominant_color img = dominant_spec img"
  by (rule extract_dominant_color_mean)

theorem extract_dominant_color_refines_witness:
  "length (img_pixels \<lparr>img_width = 2, img_height = 1, img_pixels = [(100, 50, 200), (0, 0, 0)]\<rparr>) < 2 ^ 56
   \<and> extract_dominant_color \<lparr>img_width = 2, img_height = 1, img_pixels = [(100, 50, 200), (0, 0, 0)]\<rparr>
     = (100, 50, 200)"
proof -
  have "dominant_spec \<lparr>img_width = 2, img_height = 1, img_pixels = [(100, 50, 200), (0, 0, 0)]\<rparr>
      = (100, 50, 200)"
    by (simp add: dominant_spec_def samples_def enumerate_pixels_def sampled_def brightness_def
        channel_mean_def channel_sum_def)
  then show ?thesis
    using extract_dominant_color_refines
      [of "\<lparr>img_width = 2, img_height = 1, img_pixels = [(100, 50, 200), (0, 0, 0)]\<rparr>"]
    by simp
qed

text \<open>
  C20: an image of one mid-range grey (brightness strictly between 20 and 235) yields
  exactly that grey.
\<close>

theorem extract_dominant_color_gray:
  assumes "img_pixels img \<noteq> []" and "\<forall>p \<in> set (img_pixels img). p = (v, v, v)"
    and "20 < v" and "v < 235" and "length (img_pixels img) < 2 ^ 56"
  shows "extract_dominant_color img = (v, v, v)"
proof -
  obtain ps where px: "img_pixels img = (v, v, v) # ps"
    using assms(1,2) by (cases "img_pixels img") auto
  have "(20 :: u16) < ucast v" "(ucast v :: u16) < 235"
    using assms(3,4) by (simp_all add: word_less_nat_alt unat_ucast_u8)
  then have s: "sampled (0, 0, (v, v, v))" by (simp add: sampled_def brightness_gray)
  have ne: "samples img \<noteq> []" by (rule samples_first [OF px s])
  have all: "\<forall>p \<in> set (samples img). p = (v, v, v)"
    using assms(2) samples_subset [of img] by blast
  show ?thesis
    using ne all extract_dominant_color_mean [OF assms(5)]
    by (simp add: dominant_spec_def channel_mean_const)
qed

theorem extract_dominant_color_gray_witness:
  "extract_dominant_color \<lparr>img_width = 1, img_height = 1, img_pixels = [(127, 127, 127)]\<rparr>
     = (127, 127, 127)"
  by (rule extract_dominant_color_gray) simp_all

text \<open>
  C21: when no pixel has a brightness strictly between 20 and 235 (an all-black or
  all-white cover), the result is the fallback cyan (0, 200, 255), for images of any
  size.
\<close>

theorem extract_dominant_color_fallback:
  "\<forall>p \<in> set (img_pixels img). brightness p \<le> 20 \<or> 235 \<le> brightness p
   \<Longrightarrow> extract_dominant_color img = (0, 200, 255)"
  by (rule extract_dominant_color_no_samples [OF samples_none])

theorem extract_dominant_color_fallback_witness:
  "extract_dominant_color \<lparr>img_width = 2, img_height = 2, img_pixels = replicate 4 (0, 0, 0)\<rparr>
     = (0, 200, 255)"
  by (rule extract_dominant_color_fallback) (simp add: brightness_def)

end
