(* ===== verification/Utils.thy ===== *)
theory Utils
  imports Prelude "HOL-Library.Signed_Division" "HOL-Library.Sublist"
begin

text \<open>
  The string helpers of \<open>src/spotify_player/src/utils.rs\<close>: \<open>format_duration\<close>
  (Rust's truncating \<open>/\<close> and \<open>%\<close> on \<open>i64\<close> and the \<open>{}\<close> and \<open>{:02}\<close>
  formats), \<open>map_join\<close> (a fold that skips the separator while the accumulator is
  empty), \<open>parse_uri\<close> (\<open>str::split\<close> and \<open>join\<close>), the two image-URL getters, and
  \<open>filtered_items_from_query\<close> without the \<open>fzf\<close> feature (case-insensitive
  word-by-word substring search). Strings are lists of 8-bit characters, so
  \<open>to_lowercase\<close> is modelled on ASCII letters; an item's \<open>Display\<close> text is a
  function parameter.
\<close>

subsection \<open>Formatting integers\<close>

fun string_of_nat :: "nat \<Rightarrow> string" where
  "string_of_nat n =
     (if n < 10 then [char_of (48 + n)] else string_of_nat (n div 10) @ [char_of (48 + n mod 10)])"

definition int_sign :: "int \<Rightarrow> string" where
  "int_sign i = (if i < 0 then ''-'' else [])"

text \<open>\<open>{}\<close> on an integer.\<close>

definition fmt_int :: "int \<Rightarrow> string" where
  "fmt_int i = int_sign i @ string_of_nat (nat \<bar>i\<bar>)"

text \<open>\<open>{:0w}\<close>: sign first, then zeros up to the width, then the digits.\<close>

definition fmt_int_pad :: "nat \<Rightarrow> int \<Rightarrow> string" where
  "fmt_int_pad w i = (let s = int_sign i; d = string_of_nat (nat \<bar>i\<bar>) in
     s @ replicate (w - length s - length d) (CHR ''0'') @ d)"

text \<open>\<open>format_duration\<close>, applied to \<open>duration.num_seconds()\<close>.\<close>

definition format_duration :: "int \<Rightarrow> string" where
  "format_duration secs = fmt_int (secs sdiv 60) @ '':'' @ fmt_int_pad 2 (secs smod 60)"

subsection \<open>Joining and splitting\<close>

definition map_join :: "'a list \<Rightarrow> ('a \<Rightarrow> string) \<Rightarrow> string \<Rightarrow> string" where
  "map_join v f sep = fold (\<lambda>y x. if x = [] then x @ y else x @ sep @ y) (map f v) []"

text \<open>\<open>str::split(c)\<close>: always at least one piece; adjacent separators give empty pieces.\<close>

fun split_on :: "char \<Rightarrow> string \<Rightarrow> string list" where
  "split_on c [] = [[]]"
| "split_on c (x # xs) =
     (if x = c then [] # split_on c xs
      else (case split_on c xs of p # ps \<Rightarrow> (x # p) # ps | [] \<Rightarrow> [[x]]))"

text \<open>\<open>[..].join(sep)\<close>.\<close>

fun join :: "string list \<Rightarrow> string \<Rightarrow> string" where
  "join [] sep = []"
| "join [p] sep = p"
| "join (p # ps) sep = p @ sep @ join ps sep"

definition parse_uri :: "string \<Rightarrow> string" where
  "parse_uri uri = (let parts = split_on CHR '':'' uri in
     if length parts = 5 then join [parts ! 0, parts ! 3, parts ! 4] '':'' else uri)"

text \<open>The image getters: the first image's URL, if there is one.\<close>

definition get_track_album_image_url :: "string list \<Rightarrow> string option" where
  "get_track_album_image_url album_images =
     (if album_images = [] then None else Some (album_images ! 0))"

definition get_episode_show_image_url :: "string list \<Rightarrow> string option" where
  "get_episode_show_image_url show_images =
     (if show_images = [] then None else Some (show_images ! 0))"

subsection \<open>Search\<close>

definition to_lower_char :: "char \<Rightarrow> char" where
  "to_lower_char c = (let n = (of_char c :: nat) in if 65 \<le> n \<and> n \<le> 90 then char_of (n + 32) else c)"

definition to_lowercase :: "string \<Rightarrow> string" where
  "to_lowercase s = map to_lower_char s"

definition filtered_items_from_query :: "('a \<Rightarrow> string) \<Rightarrow> string \<Rightarrow> 'a list \<Rightarrow> 'a list" where
  "filtered_items_from_query to_string query items = (let query = to_lowercase query in
     filter (\<lambda>t. if query = [] then True
                 else (let t = to_lowercase (to_string t) in
                       list_all (\<lambda>q. sublist q t) (filter (\<lambda>q. q \<noteq> []) (split_on CHR '' '' query))))
       items)"

text \<open>Reading a decimal numeral back, for the round trip of \<open>format_duration\<close>.\<close>

definition is_digit :: "char \<Rightarrow> bool" where
  "is_digit c = (let n = (of_char c :: nat) in 48 \<le> n \<and> n \<le> 57)"

definition read_nat :: "string \<Rightarrow> nat" where
  "read_nat s = foldl (\<lambda>n c. 10 * n + (of_char c - 48)) (0::nat) s"

definition parse_duration :: "string \<Rightarrow> int option" where
  "parse_duration s = (case split_on CHR '':'' s of
       [m, ss] \<Rightarrow> if m \<noteq> [] \<and> list_all is_digit m \<and> length ss = 2 \<and> list_all is_digit ss
                 then Some (int (60 * read_nat m + read_nat ss)) else None
     | _ \<Rightarrow> None)"

subsection \<open>Decimal numerals\<close>

declare string_of_nat.simps [simp del]

lemma of_char_digit: "d < 10 \<Longrightarrow> (of_char (char_of (48 + d)) :: nat) = 48 + d"
  by (simp add: of_char_of)

lemma string_of_nat_ne [simp]: "string_of_nat n \<noteq> []"
  by (subst string_of_nat.simps) simp

lemma string_of_nat_digits: "list_all is_digit (string_of_nat n)"
proof (induction n rule: string_of_nat.induct)
  case (1 n)
  show ?case
    using 1 by (subst string_of_nat.simps) (auto simp: is_digit_def of_char_digit Let_def list_all_iff)
qed

lemma read_nat_snoc: "read_nat (xs @ [c]) = 10 * read_nat xs + (of_char c - 48)"
  by (simp add: read_nat_def)

lemma read_nat_string_of_nat [simp]: "read_nat (string_of_nat n) = n"
proof (induction n rule: string_of_nat.induct)
  case (1 n)
  show ?case
  proof (cases "n < 10")
    case True
    then show ?thesis
      by (subst string_of_nat.simps) (simp add: read_nat_def of_char_digit)
  next
    case False
    then have "read_nat (string_of_nat n) =
        10 * read_nat (string_of_nat (n div 10)) + (of_char (char_of (48 + n mod 10)) - 48)"
      by (subst string_of_nat.simps) (simp add: read_nat_snoc)
    with 1 False show ?thesis by (simp add: of_char_digit)
  qed
qed

lemma length_string_of_nat: "n < 100 \<Longrightarrow> length (string_of_nat n) \<le> 2"
  by (subst string_of_nat.simps) (simp add: string_of_nat.simps [of "n div 10"] div_less_iff_less_mult)

lemma read_nat_zeros [simp]: "read_nat (replicate k (CHR ''0'') @ d) = read_nat d"
proof -
  have "foldl (\<lambda>n c. 10 * n + (of_char c - 48)) (0::nat) (replicate k (CHR ''0'')) = 0"
    by (induction k) simp_all
  then show ?thesis by (simp add: read_nat_def)
qed

lemma list_all_is_digit_zeros [simp]: "list_all is_digit (replicate k (CHR ''0''))"
  by (simp add: is_digit_def list_all_iff)

subsection \<open>Splitting and joining\<close>

lemma split_on_ne [simp]: "split_on c xs \<noteq> []"
  by (induction xs) (auto split: list.split)

lemma split_on_append:
  "split_on c (xs @ c # ys) = split_on c xs @ split_on c ys"
proof (induction xs)
  case Nil
  then show ?case by simp
next
  case (Cons x xs)
  obtain p ps where "split_on c xs = p # ps" by (cases "split_on c xs") auto
  with Cons show ?case by simp
qed

lemma split_on_no_sep: "c \<notin> set xs \<Longrightarrow> split_on c xs = [xs]"
  by (induction xs) auto

lemma split_on_pieces: "p \<in> set (split_on c xs) \<Longrightarrow> c \<notin> set p"
proof (induction xs arbitrary: p)
  case Nil
  then show ?case by simp
next
  case (Cons x xs)
  then show ?case by (auto split: if_splits list.splits)
qed

lemma split_on_join:
  "ps \<noteq> [] \<Longrightarrow> \<forall>p \<in> set ps. c \<notin> set p \<Longrightarrow> split_on c (join ps [c]) = ps"
proof (induction ps)
  case (Cons p ps)
  show ?case
  proof (cases ps)
    case Nil
    with Cons.prems show ?thesis by (simp add: split_on_no_sep)
  next
    case (Cons q qs)
    with Cons.IH Cons.prems show ?thesis by (simp add: split_on_append split_on_no_sep)
  qed
qed simp

lemma filter_subseq_mono: "\<forall>x. P x \<longrightarrow> Q x \<Longrightarrow> subseq (filter P xs) (filter Q xs)"
  by (induction xs) auto

lemma to_lowercase_append [simp]: "to_lowercase (xs @ ys) = to_lowercase xs @ to_lowercase ys"
  by (simp add: to_lowercase_def)

lemma to_lower_space [simp]: "to_lower_char (CHR '' '') = CHR '' ''"
  by (simp add: to_lower_char_def)

lemma digits_no_colon: "list_all is_digit xs \<Longrightarrow> CHR '':'' \<notin> set xs"
  by (auto simp: list_all_iff is_digit_def)

lemma string_of_nat_0: "string_of_nat 0 = ''0''"
proof -
  have "char_of (48::nat) = CHR ''0''" by code_simp
  then show ?thesis by (simp add: string_of_nat.simps)
qed

lemma sdiv_smod_nonneg:
  "0 \<le> (secs::int) \<Longrightarrow> secs sdiv 60 = secs div 60 \<and> secs smod 60 = secs mod 60"
  by (simp add: signed_divide_int_eq_divide_int signed_modulo_int_def sgn_if)

lemma sdiv_smod_small_neg:
  "-60 < (secs::int) \<Longrightarrow> secs < 0 \<Longrightarrow> secs sdiv 60 = 0 \<and> secs smod 60 = secs"
  by (simp add: signed_divide_int_def signed_modulo_int_def)

lemma fmt_int_pad_nonneg:
  "0 \<le> i \<Longrightarrow> fmt_int_pad w i = replicate (w - length (string_of_nat (nat i))) (CHR ''0'') @ string_of_nat (nat i)"
  by (simp add: fmt_int_pad_def int_sign_def Let_def)

lemma join_cons: "join (p # ps) sep = p @ concat (map (\<lambda>y. sep @ y) ps)"
  by (induction ps arbitrary: p) simp_all

lemma map_join_fold_ne:
  "acc \<noteq> [] \<Longrightarrow>
   fold (\<lambda>y x. if x = [] then x @ y else x @ sep @ y) xs acc = acc @ concat (map (\<lambda>y. sep @ y) xs)"
  by (induction xs arbitrary: acc) simp_all

lemma map_join_fold:
  "fold (\<lambda>y x. if x = [] then x @ y else x @ sep @ y) xs [] = join (dropWhile (\<lambda>s. s = []) xs) sep"
  by (induction xs) (simp_all add: map_join_fold_ne join_cons)

lemma to_lowercase_words:
  "to_lowercase (q @ CHR '' '' # w) = to_lowercase q @ CHR '' '' # to_lowercase w"
  by (simp add: to_lowercase_def)

section \<open>Properties\<close>

text \<open>
  C25: \<open>format_duration\<close> on a non-negative number of seconds prints minutes, a
  colon and exactly two second digits, from which the number of seconds is
  recovered.
\<close>

theorem format_duration_roundtrip:
  "0 \<le> secs \<Longrightarrow> parse_duration (format_duration secs) = Some secs"
proof -
  assume nn: "0 \<le> secs"
  define m where "m = string_of_nat (nat (secs div 60))"
  define d where "d = string_of_nat (nat (secs mod 60))"
  define p where "p = replicate (2 - length d) (CHR ''0'') @ d"
  have "nat (secs mod 60) < 100" using nn by simp
  then have ld: "length d \<le> 2" by (simp add: d_def length_string_of_nat)
  have dm: "list_all is_digit m" "list_all is_digit p"
    by (simp_all add: m_def p_def d_def string_of_nat_digits)
  have f: "format_duration secs = m @ CHR '':'' # p"
    using nn by (simp add: format_duration_def sdiv_smod_nonneg fmt_int_def int_sign_def
        fmt_int_pad_nonneg m_def p_def d_def)
  have sp: "split_on CHR '':'' (format_duration secs) = [m, p]"
    using dm by (simp add: f split_on_append split_on_no_sep digits_no_colon)
  have "60 * read_nat m + read_nat p = nat secs"
    using nn by (simp add: m_def p_def d_def nat_div_distrib nat_mod_distrib)
  then show ?thesis
    using dm ld nn by (simp add: parse_duration_def sp m_def p_def)
qed

theorem format_duration_roundtrip_witness:
  "parse_duration (format_duration 3725) = Some 3725"
  by (rule format_duration_roundtrip) simp

text \<open>
  C26: a negative duration of less than a minute prints as \<open>0:-s\<close>: Rust's
  truncating \<open>/\<close> gives 0 minutes, which lose the sign, and \<open>%\<close> gives the
  negative seconds, which \<open>{:02}\<close> prints with its sign.
\<close>

theorem format_duration_negative:
  "-60 < secs \<Longrightarrow> secs < 0 \<Longrightarrow> format_duration secs = ''0:-'' @ string_of_nat (nat (- secs))"
  by (simp add: format_duration_def sdiv_smod_small_neg fmt_int_def int_sign_def string_of_nat_0
      fmt_int_pad_def Let_def Suc_le_eq)

theorem format_duration_negative_witness: "format_duration (-30) = ''0:-30''"
proof -
  have "format_duration (-30) = ''0:-'' @ string_of_nat (nat (- (-30)))"
    by (rule format_duration_negative) simp_all
  also have "\<dots> = ''0:-30''" by code_simp
  finally show ?thesis .
qed

text \<open>
  C27: \<open>map_join\<close> is \<open>join\<close> after dropping the leading empty strings: an empty
  string before the first non-empty one adds no separator, one after it adds one.
\<close>

theorem map_join_eq_join:
  "map_join v f sep = join (dropWhile (\<lambda>s. s = []) (map f v)) sep"
  by (simp add: map_join_def map_join_fold)

text \<open>
  C28: \<open>parse_uri\<close> turns a user-scoped URI \<open>spotify:user:{user_id}:{type}:{id}\<close>
  into \<open>spotify:{type}:{id}\<close>, for identifiers without colons.
\<close>

theorem parse_uri_user_uri:
  assumes "CHR '':'' \<notin> set u" "CHR '':'' \<notin> set t" "CHR '':'' \<notin> set i"
  shows "parse_uri (''spotify:user:'' @ u @ '':'' @ t @ '':'' @ i) = ''spotify:'' @ t @ '':'' @ i"
proof -
  have "''spotify:user:'' @ u @ '':'' @ t @ '':'' @ i =
      ''spotify'' @ CHR '':'' # ''user'' @ CHR '':'' # u @ CHR '':'' # t @ CHR '':'' # i"
    by simp
  then have "split_on CHR '':'' (''spotify:user:'' @ u @ '':'' @ t @ '':'' @ i) = [''spotify'', ''user'', u, t, i]"
    by (simp only: split_on_append) (simp add: assms split_on_no_sep)
  then show ?thesis by (simp add: parse_uri_def)
qed

theorem parse_uri_user_uri_witness:
  "parse_uri ''spotify:user:abc:playlist:xyz'' = ''spotify:playlist:xyz''"
proof -
  have "parse_uri (''spotify:user:'' @ ''abc'' @ '':'' @ ''playlist'' @ '':'' @ ''xyz'') =
      ''spotify:'' @ ''playlist'' @ '':'' @ ''xyz''"
    by (rule parse_uri_user_uri) simp_all
  then show ?thesis by simp
qed

text \<open>
  C29: \<open>parse_uri\<close> is idempotent: a converted URI has three parts and is left
  alone, any URI without five parts is returned unchanged.
\<close>

theorem parse_uri_idem: "parse_uri (parse_uri uri) = parse_uri uri"
proof (cases "length (split_on CHR '':'' uri) = 5")
  case True
  define ps where "ps = split_on CHR '':'' uri"
  have pc: "CHR '':'' \<notin> set (ps ! k)" if "k < 5" for k
  proof (rule split_on_pieces)
    show "ps ! k \<in> set (split_on CHR '':'' uri)"
      using True that by (simp add: ps_def)
  qed
  then have "\<forall>p \<in> set [ps ! 0, ps ! 3, ps ! 4]. CHR '':'' \<notin> set p" by simp
  then have "split_on CHR '':'' (join [ps ! 0, ps ! 3, ps ! 4] [CHR '':'']) = [ps ! 0, ps ! 3, ps ! 4]"
    by (intro split_on_join) simp_all
  then show ?thesis using True by (simp add: parse_uri_def ps_def [symmetric] Let_def)
qed (simp add: parse_uri_def)

text \<open>
  C30: adding a word to a search query never adds results: the items matching the
  longer query are a subsequence of those matching the shorter one, order kept.
\<close>

theorem filtered_items_narrowing:
  "subseq (filtered_items_from_query to_string (q @ CHR '' '' # w) items)
          (filtered_items_from_query to_string q items)"
  unfolding filtered_items_from_query_def Let_def to_lowercase_words
  by (rule filter_subseq_mono) (simp add: split_on_append)

end
