(* ===== verification/Effects.thy ===== *)
theory Effects
  imports Prelude
begin

text \<open>
  \<open>src/spotify_player/src/ui/effects.rs\<close>: the effects state, compiled in one
  of two forms. With the \<open>fx\<close> feature it records the instant of its creation and
  reports the time since then (\<open>Instant::duration_since\<close>, which saturates at zero
  if the clock reading is earlier); without it the state is a unit value whose
  \<open>update\<close> and \<open>clear\<close> do nothing, beside a \<open>ProgressBarEffect\<close> with the single
  variant \<open>None\<close>. The clock reading is an input of each operation.
\<close>

record effects_state_fx =
  last_update :: instant

definition effects_default_fx :: "instant \<Rightarrow> effects_state_fx" where
  "effects_default_fx now = \<lparr>last_update = now\<rparr>"

definition elapsed :: "instant \<Rightarrow> effects_state_fx \<Rightarrow> nat" where
  "elapsed now st = now - last_update st"

datatype effects_state_stub = EffectsStub

definition effects_default_stub :: effects_state_stub where
  "effects_default_stub = EffectsStub"

definition update :: "effects_state_stub \<Rightarrow> effects_state_stub" where
  "update st = st"

definition clear :: "effects_state_stub \<Rightarrow> effects_state_stub" where
  "clear st = st"

datatype progress_bar_effect = PNone

definition progress_bar_effect_default :: progress_bar_effect where
  "progress_bar_effect_default = PNone"

end
