(* ===== verification/Spec2Isabelle.thy ===== *)
theory Spec2Isabelle
  imports App Palette Dominant Utils Effects
begin

text \<open>
  \<^bold>\<open>A verification library for the visualization core of spotify-player-klu.\<close>

  \<^bold>\<open>The program.\<close> \<open>src/spotify_player/src/ui/visualizations.rs\<close> renders an
  animated wave into a rectangle of the terminal: \<open>render_concentric_waves\<close> draws
  one lit cell per column on a slow sine wave in the album colour, and
  \<open>get_color_for_scheme\<close> maps a colour scheme, an intensity and a tier level to a
  colour (with album-derived tiers for the \<open>Custom\<close> scheme).
  \<open>src/waveform_test/src/main.rs\<close> is a stand-alone test binary: an \<open>App\<close> state
  (scheme index, start instant, simulated tempo) changed by key presses, an event
  loop between terminal set-up and tear-down, and a radial renderer of rings that
  expand with the beat, coloured by the binary's own copy of the resolver.
  \<open>src/spotify_player/src/utils.rs\<close> holds string helpers and the dominant-colour
  extraction from album art; the palette deriver (\<open>generate_color_palette\<close>) and
  the \<open>Custom\<close> scheme take such a colour, though nothing under \<open>src/\<close> passes it
  on. \<open>src/spotify_player/src/ui/effects.rs\<close> is an effects placeholder. The
  renderers write into ratatui frames; the state of the test
  binary is owned by its single loop.

  \<^bold>\<open>Arithmetic.\<close> All colour and geometry arithmetic of the sources is \<open>f64\<close>.
  Theory \<open>F64\<close> models binary64 exactly where the sources need it: every
  operation rounds the exact real result to 53 significant bits, to nearest, ties to
  even, with gradual underflow (\<open>f64_round\<close>); \<open>%\<close>, \<open>round\<close> and the saturating
  casts \<open>as u8\<close> and \<open>as usize\<close> are written out as Rust defines them. This matters:
  with exact reals, \<open>(90 as f64 * 0.7) as u8\<close> would be 63, but it is 62.
  Overflow to infinity and NaN are not modelled (every value is a small coordinate,
  channel or tempo). \<open>sin\<close> and \<open>sqrt\<close> are the correctly rounded real functions.
  The facts the proofs use are that rounding is monotone, odd, idempotent and exact
  on integers and short dyadic values.

  \<^bold>\<open>Theories.\<close>
  \<^item> \<open>Prelude\<close>: machine types (\<open>u8\<close>, \<open>u16\<close>, \<open>usize\<close> as words), \<open>rgb\<close>, fact
    collections, word lemmas.
  \<^item> \<open>F64\<close>: the binary64 model above and the Rust float operations and casts.
  \<^item> \<open>Scheme\<close>: \<open>ColorScheme\<close>, \<open>apply_intensity\<close>, \<open>get_color_for_scheme\<close> with its
    tables (\<open>scheme_tier\<close>) and album tiers (\<open>custom_tier\<close>), and the test binary's
    resolver \<open>test_get_color_for_scheme\<close>. Claims C1 to C6: colours never exceed their
    tier for intensity at most 1, brightness is monotone in intensity, the album and
    fallback identities, the two resolvers agree, and every album tier channel is the
    exactly scaled and truncated value or one less (\<open>u8_scale_near\<close> in \<open>F64\<close>,
    from the two-sided bound on the rounding error).
  \<^item> \<open>Tui\<close>: the ratatui vocabulary (rect, span, widget, frame); drawing itself is
    the library's and is not modelled.
  \<^item> \<open>Wave\<close>: the linear renderer (\<open>wave_y\<close>, \<open>wave_positions\<close>, \<open>wave_text\<close>,
    \<open>render_concentric_waves\<close>), the beat clock \<open>beat_phase\<close> and the radial field
    (\<open>radial_intensity\<close>, \<open>radial_cell\<close>, \<open>radial_text\<close>). Claims C7 to C12: one lit
    cell per column from height 5 on, and in general a lit cell exactly when the
    wave height is below the last row's centre; the phase lies in [0, 1); the
    radial field is mirror-symmetric; intensities lie in [0, 6], and a cell of
    intensity above 1 is drawn at least as bright as its tier's base colour.
  \<^item> \<open>App\<close>: the \<open>App\<close> record and handlers, the key dispatch \<open>handle_key\<close>, the
    renderer driven by the state, one loop iteration \<open>loop_step\<close> over the outcomes of
    drawing, polling and reading, the loop \<open>run_loop\<close> over a list of such outcomes, and
    \<open>main\<close> with the terminal state it leaves. Reachable states are an inductive
    predicate. Claims C13 to C18: the index and tempo invariant, the scheme cycle as
    a refinement of the index arithmetic, the next/previous round trip, that a quit
    key ends a loop without errors, and the terminal state after an error (raw
    mode and alternate screen not restored; the cursor, which only a successful
    draw hides, is shown again by \<open>Terminal\<close>'s \<open>Drop\<close>) and after a normal quit
    (restored).
  \<^item> \<open>Dominant\<close>: \<open>extract_dominant_color\<close> of \<open>utils.rs\<close> from the resized RGB
    image on: \<open>enumerate_pixels\<close>, the integer \<open>brightness\<close>, one loop iteration
    \<open>sample_step\<close> over the \<open>u64\<close> sums and count, and the final division and casts;
    \<open>dominant_spec\<close> is the mean over the filtered samples. Claims C19 to C21: the
    loop refines the specification (no \<open>u64\<close> wrap, lossless casts), a uniform grey
    image yields its grey, and an image with no pixel in the band yields the fallback.
  \<^item> \<open>Palette\<close>: \<open>AlbumPalette\<close>, its default, the blend \<open>mix\<close> and
    \<open>generate_color_palette\<close>. Claims C22 to C24: the binary64 0.8/0.2 blends
    never exceed the brighter channel (the error analysis uses the bound on the
    rounding error in \<open>F64\<close>), the shades saturate at 0 and 255, and the complement
    is exact and involutive.
  \<^item> \<open>Utils\<close>: the string helpers of \<open>utils.rs\<close>: \<open>format_duration\<close> with
    Rust's truncating \<open>/\<close> and \<open>%\<close> (\<open>sdiv\<close>, \<open>smod\<close>) and the \<open>{}\<close> and
    \<open>{:02}\<close> formats, \<open>map_join\<close>, \<open>parse_uri\<close> over \<open>split_on\<close> and \<open>join\<close>
    (\<open>str::split\<close> and \<open>join\<close>), the image-URL getters, and
    \<open>filtered_items_from_query\<close> without \<open>fzf\<close>. Claims C25 to C30: the
    duration round trip for non-negative durations and the \<open>0:-s\<close> output for short
    negative ones, \<open>map_join\<close> as \<open>join\<close> after leading empty strings, the URI
    conversion and its idempotence, and that a longer query never adds results.
  \<^item> \<open>Effects\<close>: both builds of \<open>effects.rs\<close>: the \<open>fx\<close> state with its creation
    instant and saturating \<open>elapsed\<close>, and the stub with no-op \<open>update\<close> and
    \<open>clear\<close>. They carry no claim: the placeholder has no behaviour to verify.

  \<^bold>\<open>Bounds and fuel.\<close> The event loop is a recursion over the list of per-iteration
  inputs, so it always returns; a run whose inputs end before \<open>q\<close> is reported as
  still running, and C16 states when a run does end. Sizes are \<open>u16\<close>, so every
  coordinate is below 2^16, far inside the 2^53 range where binary64 is exact on
  integers. The extraction loop is a fold over the finite pixel list; its \<open>u64\<close>
  sums cannot wrap below 2^56 pixels, far above the 4096 of the resized image.

  \<^bold>\<open>Not modelled.\<close> Terminal I/O, ratatui's layout and drawing (the layout of
  \<open>ui\<close> in the test binary), image decoding and resizing (the extraction starts from
  the library's 64 by 64 RGB buffer), the \<open>fzf\<close> fuzzy matcher
  (an external library), Unicode case mapping (\<open>to_lowercase\<close> is modelled on
  ASCII letters), and the time source (instants are inputs).
\<close>

end
